theory Spec2Isabelle
  imports Main "HOL-Library.Word"
begin

section \<open>JavaScript values used by the chat page\<close>

text \<open>
  A JavaScript string is a sequence of UTF-16 code units. The page only concatenates
  strings, compares them with the empty string and trims them, so a list of code units
  (as natural numbers) carries everything the handlers observe.
\<close>

type_synonym jsstring = "nat list"

text \<open>String literals of the source are ASCII; \<open>lit\<close> reads one as code units.\<close>

definition lit :: "string \<Rightarrow> jsstring" where
  "lit s = map of_char s"

text \<open>
  \<open>String.prototype.trim\<close> strips WhiteSpace and LineTerminator code points from both
  ends (ECMA-262, 22.1.3.32). All of them lie in the Basic Multilingual Plane, so the test
  is on single code units.
\<close>

definition isWhiteSpace :: "nat \<Rightarrow> bool" where
  "isWhiteSpace c \<longleftrightarrow>
     c = 0x9 \<or> c = 0xA \<or> c = 0xB \<or> c = 0xC \<or> c = 0xD \<or> c = 0x20 \<or> c = 0xA0 \<or>
     c = 0x1680 \<or> (0x2000 \<le> c \<and> c \<le> 0x200A) \<or> c = 0x2028 \<or> c = 0x2029 \<or>
     c = 0x202F \<or> c = 0x205F \<or> c = 0x3000 \<or> c = 0xFEFF"

definition trim :: "jsstring \<Rightarrow> jsstring" where
  "trim s = rev (dropWhile isWhiteSpace (rev (dropWhile isWhiteSpace s)))"

text \<open>\<open>!str\<close> on a string: true exactly for the empty string.\<close>

definition falsy :: "jsstring \<Rightarrow> bool" where
  "falsy s \<longleftrightarrow> s = []"

text \<open>
  The template literal \<open>`API error: ${response.status}`\<close> prints the status, a
  non-negative integer, in decimal.
\<close>

fun decimal :: "nat \<Rightarrow> jsstring" where
  "decimal n = (if n < 10 then [48 + n] else decimal (n div 10) @ [48 + n mod 10])"

declare decimal.simps [simp del]

text \<open>
  What a rejected promise or a \<open>throw\<close> delivers to the \<open>catch\<close> clause: an
  \<open>Error\<close> instance with its message, or any other value.
\<close>

datatype thrown = Error jsstring | NonError

section \<open>The platform's TextDecoder\<close>

text \<open>
  \<open>new TextDecoder()\<close> is the UTF-8 decoder of the WHATWG Encoding Standard with
  \<open>fatal = false\<close> and \<open>ignoreBOM = false\<close>. The page always calls
  \<open>decode(value, {stream: true})\<close>, so the decoder is never flushed and never reset:
  its state lives across calls. The state and the byte handler below follow the
  standard's "UTF-8 decoder"; the masks and shifts of the standard are written as
  \<open>mod\<close> and multiplication on natural numbers.
\<close>

record utf8_decoder =
  code_point :: nat
  bytes_seen :: nat
  bytes_needed :: nat
  lower_boundary :: nat
  upper_boundary :: nat

definition utf8_initial :: utf8_decoder where
  "utf8_initial = \<lparr>code_point = 0, bytes_seen = 0, bytes_needed = 0,
                    lower_boundary = 0x80, upper_boundary = 0xBF\<rparr>"

text \<open>The handler's branch for \<open>bytes needed = 0\<close>: a lead byte, or an error.\<close>

definition utf8_lead :: "utf8_decoder \<Rightarrow> nat \<Rightarrow> utf8_decoder \<times> nat list" where
  "utf8_lead d b =
     (if b \<le> 0x7F then (d, [b])
      else if 0xC2 \<le> b \<and> b \<le> 0xDF then
        (d\<lparr>bytes_needed := 1, code_point := b mod 0x20\<rparr>, [])
      else if 0xE0 \<le> b \<and> b \<le> 0xEF then
        (d\<lparr>lower_boundary := (if b = 0xE0 then 0xA0 else lower_boundary d),
           upper_boundary := (if b = 0xED then 0x9F else upper_boundary d),
           bytes_needed := 2, code_point := b mod 0x10\<rparr>, [])
      else if 0xF0 \<le> b \<and> b \<le> 0xF4 then
        (d\<lparr>lower_boundary := (if b = 0xF0 then 0x90 else lower_boundary d),
           upper_boundary := (if b = 0xF4 then 0x8F else upper_boundary d),
           bytes_needed := 3, code_point := b mod 0x8\<rparr>, [])
      else (d, [0xFFFD]))"

text \<open>
  The handler for one byte. A byte outside the expected range ends the pending sequence
  with U+FFFD (the error, in replacement mode) and is put back, that is, handled again by
  the reset decoder.
\<close>

definition utf8_handler :: "utf8_decoder \<Rightarrow> nat \<Rightarrow> utf8_decoder \<times> nat list" where
  "utf8_handler d b =
     (if bytes_needed d = 0 then utf8_lead d b
      else if \<not> (lower_boundary d \<le> b \<and> b \<le> upper_boundary d) then
        (case utf8_lead utf8_initial b of (d', out) \<Rightarrow> (d', 0xFFFD # out))
      else
        (let d1 = d\<lparr>lower_boundary := 0x80, upper_boundary := 0xBF,
                     code_point := code_point d * 0x40 + b mod 0x40,
                     bytes_seen := bytes_seen d + 1\<rparr>
         in if bytes_seen d1 \<noteq> bytes_needed d1 then (d1, [])
            else (d1\<lparr>code_point := 0, bytes_needed := 0, bytes_seen := 0\<rparr>, [code_point d1])))"

fun utf8_run :: "utf8_decoder \<Rightarrow> nat list \<Rightarrow> utf8_decoder \<times> nat list" where
  "utf8_run d [] = (d, [])"
| "utf8_run d (b # bs) =
     (case utf8_handler d b of (d1, out1) \<Rightarrow>
        (case utf8_run d1 bs of (d2, out2) \<Rightarrow> (d2, out1 @ out2)))"

text \<open>A code point as UTF-16 code units: itself, or a surrogate pair.\<close>

definition utf16 :: "nat \<Rightarrow> jsstring" where
  "utf16 c = (if c < 0x10000 then [c]
              else [0xD800 + (c - 0x10000) div 0x400, 0xDC00 + (c - 0x10000) mod 0x400])"

text \<open>
  Serialising the decoded code points: the first code point the decoder ever produces
  sets \<open>BOM seen\<close>, and is dropped when it is U+FEFF.
\<close>

fun serialize :: "bool \<Rightarrow> nat list \<Rightarrow> bool \<times> jsstring" where
  "serialize seen [] = (seen, [])"
| "serialize seen (c # cs) =
     (if \<not> seen \<and> c = 0xFEFF then serialize True cs
      else (case serialize True cs of (seen', out) \<Rightarrow> (seen', utf16 c @ out)))"

record TextDecoder =
  utf8 :: utf8_decoder
  BOM_seen :: bool

definition new_TextDecoder :: TextDecoder where
  "new_TextDecoder = \<lparr>utf8 = utf8_initial, BOM_seen = False\<rparr>"

text \<open>
  \<open>decoder.decode(value, {stream: true})\<close> on a \<open>Uint8Array\<close>: the text produced
  by these bytes and the decoder afterwards. Bytes of an unfinished sequence stay in the
  decoder.
\<close>

definition decode :: "TextDecoder \<Rightarrow> 8 word list \<Rightarrow> jsstring \<times> TextDecoder" where
  "decode dec val =
     (case utf8_run (utf8 dec) (map unat val) of (d, cps) \<Rightarrow>
        (case serialize (BOM_seen dec) cps of (seen, out) \<Rightarrow>
           (out, \<lparr>utf8 = d, BOM_seen = seen\<rparr>)))"

section \<open>The page state\<close>

text \<open>One entry of \<open>messages\<close>: \<open>{ role: string; content: string }\<close>.\<close>

record turn =
  role :: jsstring
  content :: jsstring

definition user_turn :: "jsstring \<Rightarrow> turn" where
  "user_turn c = \<lparr>role = lit ''user'', content = c\<rparr>"

definition assistant_turn :: "jsstring \<Rightarrow> turn" where
  "assistant_turn c = \<lparr>role = lit ''assistant'', content = c\<rparr>"

text \<open>
  The \<open>useState\<close> cells of \<open>Home\<close>. React applies the updater functions passed
  to \<open>setMessages\<close> in the order of the calls, so each call is modelled as an update of
  the record. The variant of the page in \<open>frontend/app/page.tsx\<close> has one more cell,
  \<open>apiKey\<close>.
\<close>

record page_state =
  developerMessage :: jsstring
  userMessage :: jsstring
  model :: jsstring
  messages :: "turn list"
  isLoading :: bool
  error :: jsstring

record page_state_key = page_state +
  apiKey :: jsstring

definition initial_page :: page_state where
  "initial_page = \<lparr>developerMessage = [], userMessage = [], model = lit ''gpt-4.1-mini'',
                     messages = [], isLoading = False, error = []\<rparr>"

definition initial_page_key :: page_state_key where
  "initial_page_key = \<lparr>developerMessage = [], userMessage = [], model = lit ''gpt-4.1-mini'',
                         messages = [], isLoading = False, error = [], apiKey = []\<rparr>"

text \<open>The JSON body of the POST to \<open>/api/chat\<close>; \<open>api_key\<close> only in the variant with a key.\<close>

record chat_request =
  developer_message :: jsstring
  user_message :: jsstring
  request_model :: jsstring
  api_key :: "jsstring option"

section \<open>The environment of a submission\<close>

text \<open>
  How \<open>await fetch(...)\<close> settles: rejected, or a response with its status and
  whether \<open>response.body\<close> is there (\<open>response.body?.getReader()\<close> is
  \<open>undefined\<close> for a null body).
\<close>

datatype fetch_result = FetchRejected thrown | Response nat bool

definition ok :: "nat \<Rightarrow> bool" where
  "ok status \<longleftrightarrow> 200 \<le> status \<and> status \<le> 299"

text \<open>How one \<open>await reader.read()\<close> settles.\<close>

datatype read_result = Chunk "8 word list" | Done | ReadRejected thrown

text \<open>The locals of \<open>handleSubmit\<close> that live across the reads.\<close>

record stream_locals =
  decoder :: TextDecoder
  assistantMessage :: jsstring

section \<open>handleSubmit and handleClearChat\<close>

text \<open>
  The \<open>catch\<close> clause: \<open>setError(err instanceof Error ? err.message : 'An error
  occurred')\<close> and \<open>setMessages(prev => prev.filter(msg => msg.content !== ''))\<close>.
\<close>

definition catch_clause :: "thrown \<Rightarrow> 'a page_state_scheme \<Rightarrow> 'a page_state_scheme" where
  "catch_clause err s =
     s\<lparr>error := (case err of Error m \<Rightarrow> m | NonError \<Rightarrow> lit ''An error occurred''),
       messages := filter (\<lambda>msg. content msg \<noteq> []) (messages s)\<rparr>"

definition finally_clause :: "'a page_state_scheme \<Rightarrow> 'a page_state_scheme" where
  "finally_clause s = s\<lparr>isLoading := False\<rparr>"

text \<open>
  \<open>const updated = [...prev]; updated[updated.length - 1] = t; return updated\<close>.
  On an empty \<open>prev\<close> the assignment is to the key \<open>-1\<close>, which is no array index:
  the array keeps length 0 and no element, and the next \<open>[...prev]\<close> or \<open>filter\<close>
  copies elements only.
\<close>

definition replace_last :: "turn list \<Rightarrow> turn \<Rightarrow> turn list" where
  "replace_last prev t = (if prev = [] then [] else prev[length prev - 1 := t])"

text \<open>
  From the submit event to the first \<open>await\<close>: the validation, then the user turn,
  then the request handed to \<open>fetch\<close> (\<open>None\<close>: no request is made).
\<close>

definition handleSubmit_begin ::
  "'a page_state_scheme \<Rightarrow> 'a page_state_scheme \<times> chat_request option" where
  "handleSubmit_begin s =
     (if falsy (trim (userMessage s)) then (s\<lparr>error := lit ''Please enter a message''\<rparr>, None)
      else
        (s\<lparr>error := [], isLoading := True,
           messages := messages s @ [user_turn (userMessage s)]\<rparr>,
         Some \<lparr>developer_message =
                  (if falsy (developerMessage s) then lit ''You are a helpful assistant.''
                   else developerMessage s),
               user_message = userMessage s,
               request_model = model s,
               api_key = None\<rparr>))"

text \<open>The same in \<open>frontend/app/page.tsx\<close>, where the API key is checked first.\<close>

definition handleSubmit_begin_key ::
  "page_state_key \<Rightarrow> page_state_key \<times> chat_request option" where
  "handleSubmit_begin_key s =
     (if falsy (trim (apiKey s)) then (s\<lparr>error := lit ''Please provide an API key''\<rparr>, None)
      else
        (case handleSubmit_begin s of
           (s', None) \<Rightarrow> (s', None)
         | (s', Some req) \<Rightarrow> (s', Some (req\<lparr>api_key := Some (apiKey s)\<rparr>))))"

text \<open>
  From the settled \<open>fetch\<close> to the first \<open>reader.read()\<close>. \<open>None\<close>: the
  submission is over (through \<open>catch\<close> and \<open>finally\<close>).
\<close>

definition handleSubmit_response ::
  "'a page_state_scheme \<Rightarrow> fetch_result \<Rightarrow> 'a page_state_scheme \<times> stream_locals option" where
  "handleSubmit_response s r =
     (case r of
        FetchRejected err \<Rightarrow> (finally_clause (catch_clause err s), None)
      | Response status body \<Rightarrow>
          if \<not> ok status then
            (finally_clause (catch_clause (Error (lit ''API error: '' @ decimal status)) s), None)
          else if \<not> body then
            (finally_clause (catch_clause (Error (lit ''No response body'')) s), None)
          else
            (s\<lparr>messages := messages s @ [assistant_turn []]\<rparr>,
             Some \<lparr>decoder = new_TextDecoder, assistantMessage = []\<rparr>))"

text \<open>One turn of the \<open>while (true)\<close> loop, from a settled read to the next read.\<close>

definition handleSubmit_read ::
  "'a page_state_scheme \<Rightarrow> stream_locals \<Rightarrow> read_result \<Rightarrow>
   'a page_state_scheme \<times> stream_locals option" where
  "handleSubmit_read s l r =
     (case r of
        Done \<Rightarrow> (finally_clause (s\<lparr>userMessage := []\<rparr>), None)
      | ReadRejected err \<Rightarrow> (finally_clause (catch_clause err s), None)
      | Chunk val \<Rightarrow>
          (case decode (decoder l) val of (chunk, dec) \<Rightarrow>
             (s\<lparr>messages := replace_last (messages s)
                                (assistant_turn (assistantMessage l @ chunk))\<rparr>,
              Some \<lparr>decoder = dec, assistantMessage = assistantMessage l @ chunk\<rparr>)))"

text \<open>
  The loop over the reads that have settled so far. \<open>Some\<close> locals in the result: the
  handler is suspended at the next \<open>await reader.read()\<close>.
\<close>

fun read_loop ::
  "'a page_state_scheme \<Rightarrow> stream_locals \<Rightarrow> read_result list \<Rightarrow>
   'a page_state_scheme \<times> stream_locals option" where
  "read_loop s l [] = (s, Some l)"
| "read_loop s l (r # rs) =
     (case handleSubmit_read s l r of
        (s', None) \<Rightarrow> (s', None)
      | (s', Some l') \<Rightarrow> read_loop s' l' rs)"

definition handleSubmit_continue ::
  "'a page_state_scheme \<Rightarrow> fetch_result \<Rightarrow> read_result list \<Rightarrow>
   'a page_state_scheme \<times> stream_locals option" where
  "handleSubmit_continue s fr rs =
     (case handleSubmit_response s fr of
        (s', None) \<Rightarrow> (s', None)
      | (s', Some l) \<Rightarrow> read_loop s' l rs)"

text \<open>
  One submission run alone, against a fetch result and the reads that follow it.
\<close>

definition handleSubmit ::
  "'a page_state_scheme \<Rightarrow> fetch_result \<Rightarrow> read_result list \<Rightarrow>
   'a page_state_scheme \<times> stream_locals option" where
  "handleSubmit s fr rs =
     (case handleSubmit_begin s of
        (s', None) \<Rightarrow> (s', None)
      | (s', Some req) \<Rightarrow> handleSubmit_continue s' fr rs)"

definition handleSubmit_key ::
  "page_state_key \<Rightarrow> fetch_result \<Rightarrow> read_result list \<Rightarrow>
   page_state_key \<times> stream_locals option" where
  "handleSubmit_key s fr rs =
     (case handleSubmit_begin_key s of
        (s', None) \<Rightarrow> (s', None)
      | (s', Some req) \<Rightarrow> handleSubmit_continue s' fr rs)"

definition handleClearChat :: "'a page_state_scheme \<Rightarrow> 'a page_state_scheme" where
  "handleClearChat s = s\<lparr>messages := [], error := []\<rparr>"

text \<open>The increments of a body: the text each chunk decodes to, in order.\<close>

fun increments :: "TextDecoder \<Rightarrow> 8 word list list \<Rightarrow> jsstring list" where
  "increments dec [] = []"
| "increments dec (val # vals) =
     (case decode dec val of (chunk, dec') \<Rightarrow> chunk # increments dec' vals)"

fun decoder_after :: "TextDecoder \<Rightarrow> 8 word list list \<Rightarrow> TextDecoder" where
  "decoder_after dec [] = dec"
| "decoder_after dec (val # vals) = decoder_after (snd (decode dec val)) vals"

section \<open>The page as an event system\<close>

text \<open>
  \<open>handleSubmit\<close> is asynchronous: between two \<open>await\<close>s the user may act. A
  submission in flight is a task, suspended either at \<open>await fetch(...)\<close> or at
  \<open>await reader.read()\<close>.
\<close>

datatype task = Fetching chat_request | Streaming stream_locals

fun is_Streaming :: "task \<Rightarrow> bool" where
  "is_Streaming (Streaming l) = True"
| "is_Streaming (Fetching req) = False"

text \<open>
  The events of the page: the \<open>onChange\<close> handlers, the form's \<open>onSubmit\<close>, the
  click on "Clear Chat", and the settling of the promise a task waits for.
\<close>

datatype event =
    TypeUserMessage jsstring
  | TypeDeveloperMessage jsstring
  | SelectModel jsstring
  | SubmitForm
  | ClickClearChat
  | FetchSettled nat fetch_result
  | ReadSettled nat read_result

type_synonym app = "page_state \<times> task list"

definition drop_task :: "nat \<Rightarrow> task list \<Rightarrow> task list" where
  "drop_task i ts = take i ts @ drop (Suc i) ts"

definition resume :: "nat \<Rightarrow> task list \<Rightarrow> page_state \<times> stream_locals option \<Rightarrow> app" where
  "resume i ts r =
     (case r of (s', None) \<Rightarrow> (s', drop_task i ts)
              | (s', Some l) \<Rightarrow> (s', ts[i := Streaming l]))"

text \<open>
  One event; \<open>None\<close> when the page offers no such event in this state: the message
  input and the submit button are \<open>disabled={isLoading}\<close>, the "Clear Chat" button is
  rendered only when \<open>messages.length > 0\<close>, and a promise settles only for the task
  that awaits it.
\<close>

fun fire :: "app \<Rightarrow> event \<Rightarrow> app option" where
  "fire (s, ts) (TypeUserMessage v) =
     (if isLoading s then None else Some (s\<lparr>userMessage := v\<rparr>, ts))"
| "fire (s, ts) (TypeDeveloperMessage v) = Some (s\<lparr>developerMessage := v\<rparr>, ts)"
| "fire (s, ts) (SelectModel v) = Some (s\<lparr>model := v\<rparr>, ts)"
| "fire (s, ts) SubmitForm =
     (if isLoading s then None
      else (case handleSubmit_begin s of
              (s', None) \<Rightarrow> Some (s', ts)
            | (s', Some req) \<Rightarrow> Some (s', ts @ [Fetching req])))"
| "fire (s, ts) ClickClearChat =
     (if messages s = [] then None else Some (handleClearChat s, ts))"
| "fire (s, ts) (FetchSettled i fr) =
     (if i < length ts then
        (case ts ! i of
           Fetching req \<Rightarrow> Some (resume i ts (handleSubmit_response s fr))
         | Streaming l \<Rightarrow> None)
      else None)"
| "fire (s, ts) (ReadSettled i rr) =
     (if i < length ts then
        (case ts ! i of
           Fetching req \<Rightarrow> None
         | Streaming l \<Rightarrow> Some (resume i ts (handleSubmit_read s l rr)))
      else None)"

fun run :: "app \<Rightarrow> event list \<Rightarrow> app option" where
  "run a [] = Some a"
| "run a (e # es) = (case fire a e of None \<Rightarrow> None | Some a' \<Rightarrow> run a' es)"

definition initial_app :: app where
  "initial_app = (initial_page, [])"

section \<open>Notions the properties are stated with\<close>

definition is_assistant :: "turn \<Rightarrow> bool" where
  "is_assistant t \<longleftrightarrow> role t = lit ''assistant''"

text \<open>
  An assistant turn is growing when a task is reading the response body and the turn list
  has a last turn for it to write to.
\<close>

fun growing :: "app \<Rightarrow> bool" where
  "growing (s, ts) \<longleftrightarrow> list_ex is_Streaming ts \<and> messages s \<noteq> []"

text \<open>
  The sender's side of the wire: the UTF-8 encoding of a Unicode scalar value
  (RFC 3629), as bytes.
\<close>

definition scalar_value :: "nat \<Rightarrow> bool" where
  "scalar_value c \<longleftrightarrow> c \<le> 0x10FFFF \<and> \<not> (0xD800 \<le> c \<and> c \<le> 0xDFFF)"

definition utf8_encode :: "nat \<Rightarrow> nat list" where
  "utf8_encode c =
     (if c < 0x80 then [c]
      else if c < 0x800 then [0xC0 + c div 0x40, 0x80 + c mod 0x40]
      else if c < 0x10000 then
        [0xE0 + c div 0x1000, 0x80 + c div 0x40 mod 0x40, 0x80 + c mod 0x40]
      else
        [0xF0 + c div 0x40000, 0x80 + c div 0x1000 mod 0x40,
         0x80 + c div 0x40 mod 0x40, 0x80 + c mod 0x40])"

definition utf8_bytes :: "nat \<Rightarrow> 8 word list" where
  "utf8_bytes c = map of_nat (utf8_encode c)"

text \<open>A text without the U+FEFF it may start with.\<close>

fun strip_BOM :: "nat list \<Rightarrow> nat list" where
  "strip_BOM [] = []"
| "strip_BOM (c # cs) = (if c = 0xFEFF then cs else c # cs)"

text \<open>
  While a sequence is pending, the decoder expects a continuation byte: its boundaries lie
  within 0x80..0xBF.
\<close>

definition continuation_range :: "utf8_decoder \<Rightarrow> bool" where
  "continuation_range d \<longleftrightarrow> 0x80 \<le> lower_boundary d \<and> upper_boundary d \<le> 0xBF"

text \<open>The number a string of decimal digits denotes.\<close>

definition digits_value :: "jsstring \<Rightarrow> nat" where
  "digits_value ds = foldl (\<lambda>a d. 10 * a + (d - 48)) 0 ds"

text \<open>What holds of a submission in flight, and of the page with its tasks.\<close>

fun task_inv :: "page_state \<Rightarrow> task \<Rightarrow> bool" where
  "task_inv s (Fetching req) = True"
| "task_inv s (Streaming l) =
     (messages s = [] \<or> last (messages s) = assistant_turn (assistantMessage l))"

fun app_inv :: "app \<Rightarrow> bool" where
  "app_inv (s, []) = (\<not> isLoading s)"
| "app_inv (s, [t]) = (isLoading s \<and> task_inv s t)"
| "app_inv (s, t # t' # ts) = False"

section \<open>The decoder is a function of the byte stream\<close>

text \<open>
  Decoding a chunk in two pieces, with the decoder carried over, gives the same text and
  the same decoder as decoding it in one piece.
\<close>

lemma utf8_run_append:
  "utf8_run d (a @ b) =
     (case utf8_run d a of (d1, o1) \<Rightarrow> (case utf8_run d1 b of (d2, o2) \<Rightarrow> (d2, o1 @ o2)))"
  by (induction a arbitrary: d) (auto split: prod.splits)

lemma serialize_append:
  "serialize seen (xs @ ys) =
     (case serialize seen xs of (s1, o1) \<Rightarrow> (case serialize s1 ys of (s2, o2) \<Rightarrow> (s2, o1 @ o2)))"
  by (induction xs arbitrary: seen) (auto split: prod.splits)

lemma decode_append:
  "decode dec (a @ b) =
     (case decode dec a of (c1, d1) \<Rightarrow> (case decode d1 b of (c2, d2) \<Rightarrow> (c1 @ c2, d2)))"
  by (auto simp: decode_def utf8_run_append serialize_append split: prod.splits)

lemma increments_concat:
  "concat (increments dec vals) = fst (decode dec (concat vals))"
  apply (induction vals arbitrary: dec)
  apply (simp add: decode_def)
  apply (auto simp: decode_append split: prod.splits)
  done

lemma decoder_after_concat:
  "decoder_after dec vals = snd (decode dec (concat vals))"
  apply (induction vals arbitrary: dec)
   apply (simp add: decode_def)
  apply (auto simp: decode_append split: prod.splits)
  done

section \<open>Decoding what a UTF-8 encoder sent\<close>

text \<open>First the decoder alone, on well-formed sequences of two, three and four bytes.\<close>

lemma dec2:
  assumes "0xC2 \<le> b1" "b1 \<le> 0xDF" "0x80 \<le> b2" "b2 \<le> 0xBF"
  shows "utf8_run utf8_initial [b1, b2] = (utf8_initial, [b1 mod 0x20 * 0x40 + b2 mod 0x40])"
  using assms
  by (simp add: utf8_handler_def utf8_lead_def utf8_initial_def Let_def)

lemma dec3:
  assumes "0xE0 \<le> b1" "b1 \<le> 0xEF" "0x80 \<le> b2" "b2 \<le> 0xBF" "0x80 \<le> b3" "b3 \<le> 0xBF"
    "b1 = 0xE0 \<longrightarrow> 0xA0 \<le> b2" "b1 = 0xED \<longrightarrow> b2 \<le> 0x9F"
  shows "utf8_run utf8_initial [b1, b2, b3] =
           (utf8_initial, [(b1 mod 0x10 * 0x40 + b2 mod 0x40) * 0x40 + b3 mod 0x40])"
  using assms
  by (simp add: utf8_handler_def utf8_lead_def utf8_initial_def Let_def)

lemma dec4:
  assumes "0xF0 \<le> b1" "b1 \<le> 0xF4" "0x80 \<le> b2" "b2 \<le> 0xBF" "0x80 \<le> b3" "b3 \<le> 0xBF"
    "0x80 \<le> b4" "b4 \<le> 0xBF"
    "b1 = 0xF0 \<longrightarrow> 0x90 \<le> b2" "b1 = 0xF4 \<longrightarrow> b2 \<le> 0x8F"
  shows "utf8_run utf8_initial [b1, b2, b3, b4] =
           (utf8_initial, [((b1 mod 0x8 * 0x40 + b2 mod 0x40) * 0x40 + b3 mod 0x40) * 0x40 + b4 mod 0x40])"
  using assms
  by (simp add: utf8_handler_def utf8_lead_def utf8_initial_def Let_def)


lemma cont_byte:
  fixes x :: nat
  shows "(0x80 + x mod 0x40) mod 0x40 = x mod 0x40"
    and "0x80 \<le> 0x80 + x mod 0x40" and "0x80 + x mod 0x40 \<le> 0xBF"
proof -
  have "(2 * 0x40 + x mod 0x40) mod 0x40 = x mod 0x40"
    by (simp only: mod_mult_self3 mod_mod_trivial)
  then show "(0x80 + x mod 0x40) mod 0x40 = x mod 0x40" by simp
  show "0x80 \<le> 0x80 + x mod 0x40" by simp
  have "x mod 0x40 < 0x40" by simp
  then show "0x80 + x mod 0x40 \<le> 0xBF" by linarith
qed

lemma enc2:
  fixes c :: nat
  assumes "0x80 \<le> c" "c < 0x800"
  shows "utf8_run utf8_initial (utf8_encode c) = (utf8_initial, [c])"
proof -
  define q where "q = c div 0x40"
  have cc: "c = q * 0x40 + c mod 0x40" unfolding q_def by simp
  have ql: "2 \<le> q" "q < 0x20" using assms unfolding q_def by auto
  have m: "(0xC0 + q) mod 0x20 = q"
  proof -
    have "(6 * 0x20 + q) mod 0x20 = q mod 0x20" by (simp only: mod_mult_self3)
    with ql show ?thesis by simp
  qed
  have enc: "utf8_encode c = [0xC0 + q, 0x80 + c mod 0x40]"
    using assms by (simp add: utf8_encode_def q_def)
  have "utf8_run utf8_initial [0xC0 + q, 0x80 + c mod 0x40] =
          (utf8_initial, [(0xC0 + q) mod 0x20 * 0x40 + (0x80 + c mod 0x40) mod 0x40])"
    using ql by (intro dec2 cont_byte) simp_all
  also have "(0xC0 + q) mod 0x20 * 0x40 + (0x80 + c mod 0x40) mod 0x40 = c"
    unfolding m cont_byte(1) using cc by simp
  finally show ?thesis unfolding enc .
qed

lemma enc3:
  fixes c :: nat
  assumes "0x800 \<le> c" "c < 0x10000" "\<not> (0xD800 \<le> c \<and> c \<le> 0xDFFF)"
  shows "utf8_run utf8_initial (utf8_encode c) = (utf8_initial, [c])"
proof -
  define q where "q = c div 0x40"
  define r where "r = q div 0x40"
  have r: "c div 0x1000 = r" unfolding r_def q_def by (simp add: div_mult2_eq)
  have qq: "q = r * 0x40 + q mod 0x40" unfolding r_def by simp
  have cc: "c = q * 0x40 + c mod 0x40" unfolding q_def by simp
  have ql: "0x20 \<le> q" "q < 0x400" using assms unfolding q_def by auto
  have qs: "q < 0x360 \<or> 0x380 \<le> q" using assms unfolding q_def by auto
  have rl: "r < 0x10" using ql unfolding r_def by auto
  have qm: "q mod 0x40 < 0x40" by simp
  have m: "(0xE0 + r) mod 0x10 = r"
  proof -
    have "(14 * 0x10 + r) mod 0x10 = r mod 0x10" by (simp only: mod_mult_self3)
    with rl show ?thesis by simp
  qed
  have enc: "utf8_encode c = [0xE0 + r, 0x80 + q mod 0x40, 0x80 + c mod 0x40]"
    using assms by (simp add: utf8_encode_def q_def r[symmetric])
  have lo: "0xE0 + r = 0xE0 \<longrightarrow> 0xA0 \<le> 0x80 + q mod 0x40"
    using qq ql by auto
  have hi: "0xE0 + r = 0xED \<longrightarrow> 0x80 + q mod 0x40 \<le> 0x9F"
  proof
    assume "0xE0 + r = 0xED"
    then have "r = 0xD" by simp
    with qq qs qm show "0x80 + q mod 0x40 \<le> 0x9F" by linarith
  qed
  have "utf8_run utf8_initial [0xE0 + r, 0x80 + q mod 0x40, 0x80 + c mod 0x40] =
          (utf8_initial, [((0xE0 + r) mod 0x10 * 0x40 + (0x80 + q mod 0x40) mod 0x40) * 0x40
                            + (0x80 + c mod 0x40) mod 0x40])"
    using rl lo hi by (intro dec3 cont_byte) simp_all
  also have "((0xE0 + r) mod 0x10 * 0x40 + (0x80 + q mod 0x40) mod 0x40) * 0x40
               + (0x80 + c mod 0x40) mod 0x40 = c"
    unfolding m cont_byte(1) using cc qq by simp
  finally show ?thesis unfolding enc .
qed

lemma enc4:
  fixes c :: nat
  assumes "0x10000 \<le> c" "c \<le> 0x10FFFF"
  shows "utf8_run utf8_initial (utf8_encode c) = (utf8_initial, [c])"
proof -
  define q where "q = c div 0x40"
  define r where "r = q div 0x40"
  define t where "t = r div 0x40"
  have r: "c div 0x1000 = r" unfolding r_def q_def by (simp add: div_mult2_eq)
  have t: "c div 0x40000 = t" unfolding t_def r_def q_def by (simp add: div_mult2_eq)
  have rr: "r = t * 0x40 + r mod 0x40" unfolding t_def by simp
  have qq: "q = r * 0x40 + q mod 0x40" unfolding r_def by simp
  have cc: "c = q * 0x40 + c mod 0x40" unfolding q_def by simp
  have rl: "0x10 \<le> r" "r < 0x110" using assms unfolding r[symmetric] by auto
  have tl: "t \<le> 4" using rl unfolding t_def by auto
  have rm: "r mod 0x40 < 0x40" by simp
  have m: "(0xF0 + t) mod 0x8 = t"
  proof -
    have "(30 * 0x8 + t) mod 0x8 = t mod 0x8" by (simp only: mod_mult_self3)
    with tl show ?thesis by simp
  qed
  have enc: "utf8_encode c = [0xF0 + t, 0x80 + r mod 0x40, 0x80 + q mod 0x40, 0x80 + c mod 0x40]"
    using assms by (simp add: utf8_encode_def q_def r[symmetric] t[symmetric])
  have lo: "0xF0 + t = 0xF0 \<longrightarrow> 0x90 \<le> 0x80 + r mod 0x40"
    using rr rl by auto
  have hi: "0xF0 + t = 0xF4 \<longrightarrow> 0x80 + r mod 0x40 \<le> 0x8F"
  proof
    assume "0xF0 + t = 0xF4"
    then have "t = 4" by simp
    with rr rl rm show "0x80 + r mod 0x40 \<le> 0x8F" by linarith
  qed
  have "utf8_run utf8_initial [0xF0 + t, 0x80 + r mod 0x40, 0x80 + q mod 0x40, 0x80 + c mod 0x40] =
          (utf8_initial, [(((0xF0 + t) mod 0x8 * 0x40 + (0x80 + r mod 0x40) mod 0x40) * 0x40
                            + (0x80 + q mod 0x40) mod 0x40) * 0x40 + (0x80 + c mod 0x40) mod 0x40])"
    using tl lo hi by (intro dec4 cont_byte) simp_all
  also have "(((0xF0 + t) mod 0x8 * 0x40 + (0x80 + r mod 0x40) mod 0x40) * 0x40
                + (0x80 + q mod 0x40) mod 0x40) * 0x40 + (0x80 + c mod 0x40) mod 0x40 = c"
    unfolding m cont_byte(1) using cc qq rr by simp
  finally show ?thesis unfolding enc .
qed

lemma utf8_run_encode:
  assumes "scalar_value c"
  shows "utf8_run utf8_initial (utf8_encode c) = (utf8_initial, [c])"
proof -
  consider "c < 0x80" | "0x80 \<le> c" "c < 0x800" | "0x800 \<le> c" "c < 0x10000" | "0x10000 \<le> c"
    by linarith
  then show ?thesis
  proof cases
    case 1
    then show ?thesis by (simp add: utf8_encode_def utf8_handler_def utf8_lead_def utf8_initial_def)
  next
    case 2
    then show ?thesis by (rule enc2)
  next
    case 3
    with assms show ?thesis by (intro enc3) (auto simp: scalar_value_def)
  next
    case 4
    with assms show ?thesis by (intro enc4) (auto simp: scalar_value_def)
  qed
qed

lemma unat_byte: "b < 256 \<Longrightarrow> unat (of_nat b :: 8 word) = b"
  by (simp add: unat_of_nat)

lemma unat_of_nat_bytes:
  "\<forall>b\<in>set bs. b < 256 \<Longrightarrow> map unat (map of_nat bs :: 8 word list) = bs"
  by (induction bs) (simp_all add: unat_byte)

lemma cont_lt: "0x80 + x mod 0x40 < (256::nat)"
proof -
  have "x mod 0x40 < 0x40" by simp
  then show ?thesis by linarith
qed

lemma utf8_encode_bytes:
  assumes "scalar_value c"
  shows "\<forall>b\<in>set (utf8_encode c). b < 256"
proof -
  have t: "0xF0 + c div 0x40000 < 256" using assms by (auto simp: scalar_value_def)
  have r: "c < 0x10000 \<Longrightarrow> 0xE0 + c div 0x1000 < 256" by auto
  have q: "c < 0x800 \<Longrightarrow> 0xC0 + c div 0x40 < 256" by auto
  show ?thesis
    unfolding utf8_encode_def using t r q by (simp add: cont_lt)
qed

lemma unat_utf8_bytes: "scalar_value c \<Longrightarrow> map unat (utf8_bytes c) = utf8_encode c"
  unfolding utf8_bytes_def by (rule unat_of_nat_bytes) (rule utf8_encode_bytes)

text \<open>A whole text, encoded character by character.\<close>

lemma utf8_run_text:
  "\<forall>c\<in>set cs. scalar_value c \<Longrightarrow>
   utf8_run utf8_initial (concat (map utf8_encode cs)) = (utf8_initial, cs)"
  by (induction cs) (simp_all add: utf8_run_append utf8_run_encode)

lemma unat_utf8_text:
  "\<forall>c\<in>set cs. scalar_value c \<Longrightarrow>
   map unat (concat (map utf8_bytes cs)) = concat (map utf8_encode cs)"
  by (induction cs) (simp_all add: unat_utf8_bytes)

lemma serialize_seen: "serialize True cs = (True, concat (map utf16 cs))"
  by (induction cs) simp_all

lemma serialize_text:
  "serialize seen cs = (seen \<or> cs \<noteq> [], concat (map utf16 (if seen then cs else strip_BOM cs)))"
  by (cases cs) (simp_all add: serialize_seen)

lemma decode_utf8_text:
  assumes "\<forall>c\<in>set cs. scalar_value c" and "utf8 dec = utf8_initial"
  shows "decode dec (concat (map utf8_bytes cs)) =
           (concat (map utf16 (if BOM_seen dec then cs else strip_BOM cs)),
            \<lparr>utf8 = utf8_initial, BOM_seen = (BOM_seen dec \<or> cs \<noteq> [])\<rparr>)"
proof -
  have "utf8_run (utf8 dec) (map unat (concat (map utf8_bytes cs))) = (utf8_initial, cs)"
    using assms by (simp only: unat_utf8_text utf8_run_text)
  then show ?thesis
    unfolding decode_def by (simp only: serialize_text prod.case)
qed

text \<open>Whenever no byte is pending, the UTF-8 decoder is back in its initial state.\<close>

lemma utf8_lead_rest:
  "utf8_lead utf8_initial b = (d, out) \<Longrightarrow> bytes_needed d = 0 \<Longrightarrow> d = utf8_initial"
  by (auto simp: utf8_lead_def utf8_initial_def split: if_splits)

lemma utf8_handler_rest:
  assumes "bytes_needed d = 0 \<longrightarrow> d = utf8_initial" "utf8_handler d b = (d', out)"
  shows "bytes_needed d' = 0 \<longrightarrow> d' = utf8_initial"
proof (cases "bytes_needed d = 0")
  case True
  with assms have "utf8_lead utf8_initial b = (d', out)" by (simp add: utf8_handler_def)
  then show ?thesis by (auto dest: utf8_lead_rest)
next
  case False
  show ?thesis
  proof (cases "lower_boundary d \<le> b \<and> b \<le> upper_boundary d")
    case out_of_range: False
    obtain d1 o1 where l: "utf8_lead utf8_initial b = (d1, o1)" by (cases "utf8_lead utf8_initial b")
    with False out_of_range assms(2) have "d' = d1" by (simp add: utf8_handler_def)
    with l show ?thesis by (auto dest: utf8_lead_rest)
  next
    case True
    with False assms(2) show ?thesis
      by (auto simp: utf8_handler_def utf8_initial_def Let_def split: if_splits)
  qed
qed

lemma utf8_run_rest:
  "bytes_needed d = 0 \<longrightarrow> d = utf8_initial \<Longrightarrow> utf8_run d bs = (d', out) \<Longrightarrow>
   bytes_needed d' = 0 \<longrightarrow> d' = utf8_initial"
proof (induction bs arbitrary: d d' out)
  case Nil
  then show ?case by simp
next
  case (Cons b bs)
  obtain d1 o1 where h: "utf8_handler d b = (d1, o1)" by (cases "utf8_handler d b")
  obtain d2 o2 where r: "utf8_run d1 bs = (d2, o2)" by (cases "utf8_run d1 bs")
  from Cons.prems(2) h r have "d' = d2" by simp
  moreover have "bytes_needed d1 = 0 \<longrightarrow> d1 = utf8_initial"
    using Cons.prems(1) h by (rule utf8_handler_rest)
  then have "bytes_needed d2 = 0 \<longrightarrow> d2 = utf8_initial"
    using r by (rule Cons.IH)
  ultimately show ?case by simp
qed

lemma decoder_rest:
  "bytes_needed (utf8 (snd (decode new_TextDecoder bs))) = 0 \<longrightarrow>
   utf8 (snd (decode new_TextDecoder bs)) = utf8_initial"
proof -
  obtain d cps where r: "utf8_run utf8_initial (map unat bs) = (d, cps)"
    by (cases "utf8_run utf8_initial (map unat bs)")
  have i: "bytes_needed utf8_initial = 0 \<longrightarrow> utf8_initial = utf8_initial" by simp
  have d: "bytes_needed d = 0 \<longrightarrow> d = utf8_initial"
    using i r by (rule utf8_run_rest)
  have "utf8 (snd (decode new_TextDecoder bs)) = d"
    by (simp add: decode_def new_TextDecoder_def r split: prod.splits)
  with d show ?thesis by simp
qed

text \<open>
  A lead byte or an ASCII byte is never taken for a continuation byte: whatever was
  pending is closed with U+FFFD, and the character that starts there is decoded whole.
\<close>

lemma utf8_lead_range:
  "utf8_lead utf8_initial b = (d, out) \<Longrightarrow> continuation_range d"
  by (auto simp: utf8_lead_def utf8_initial_def continuation_range_def split: if_splits)

lemma utf8_handler_range:
  assumes "bytes_needed d = 0 \<longrightarrow> d = utf8_initial" and "utf8_handler d b = (d', out)"
  shows "continuation_range d'"
proof (cases "bytes_needed d = 0")
  case True
  with assms have "utf8_lead utf8_initial b = (d', out)" by (simp add: utf8_handler_def)
  then show ?thesis by (rule utf8_lead_range)
next
  case False
  show ?thesis
  proof (cases "lower_boundary d \<le> b \<and> b \<le> upper_boundary d")
    case out_of_range: False
    obtain d1 o1 where l: "utf8_lead utf8_initial b = (d1, o1)" by (cases "utf8_lead utf8_initial b")
    with False out_of_range assms(2) have "d' = d1" by (simp add: utf8_handler_def)
    with l show ?thesis by (auto dest: utf8_lead_range)
  next
    case True
    with False assms(2) show ?thesis
      by (auto simp: utf8_handler_def continuation_range_def Let_def split: if_splits)
  qed
qed

lemma utf8_run_range:
  "bytes_needed d = 0 \<longrightarrow> d = utf8_initial \<Longrightarrow> continuation_range d \<Longrightarrow>
   utf8_run d bs = (d', out) \<Longrightarrow> continuation_range d'"
proof (induction bs arbitrary: d d' out)
  case Nil
  then show ?case by simp
next
  case (Cons b bs)
  obtain d1 o1 where h: "utf8_handler d b = (d1, o1)" by (cases "utf8_handler d b")
  obtain d2 o2 where r: "utf8_run d1 bs = (d2, o2)" by (cases "utf8_run d1 bs")
  from Cons.prems(3) h r have eq: "d' = d2" by simp
  have rest: "bytes_needed d1 = 0 \<longrightarrow> d1 = utf8_initial"
    using Cons.prems(1) h by (rule utf8_handler_rest)
  have range: "continuation_range d1"
    using Cons.prems(1) h by (rule utf8_handler_range)
  have "continuation_range d2" using rest range r by (rule Cons.IH)
  with eq show ?case by simp
qed

lemma decoder_range: "continuation_range (utf8 (snd (decode new_TextDecoder bs)))"
proof -
  obtain d cps where r: "utf8_run utf8_initial (map unat bs) = (d, cps)"
    by (cases "utf8_run utf8_initial (map unat bs)")
  have i: "bytes_needed utf8_initial = 0 \<longrightarrow> utf8_initial = utf8_initial" by simp
  have c: "continuation_range utf8_initial"
    by (simp add: continuation_range_def utf8_initial_def)
  have d: "continuation_range d" using i c r by (rule utf8_run_range)
  have "utf8 (snd (decode new_TextDecoder bs)) = d"
    by (simp add: decode_def new_TextDecoder_def r split: prod.splits)
  with d show ?thesis by simp
qed

lemma utf8_encode_first:
  assumes "scalar_value c"
  shows "\<exists>b bs. utf8_encode c = b # bs \<and> (b < 0x80 \<or> 0xC0 \<le> b)"
  by (simp add: utf8_encode_def)

lemma utf8_handler_resync:
  assumes "bytes_needed d \<noteq> 0" and "continuation_range d" and "b < 0x80 \<or> 0xC0 \<le> b"
  shows "utf8_handler d b =
           (case utf8_handler utf8_initial b of (d', out) \<Rightarrow> (d', 0xFFFD # out))"
proof -
  have "\<not> (lower_boundary d \<le> b \<and> b \<le> upper_boundary d)"
    using assms(2,3) by (auto simp: continuation_range_def)
  then show ?thesis
    using assms(1) by (simp add: utf8_handler_def utf8_initial_def)
qed

lemma utf8_run_encode_pending:
  assumes "bytes_needed d \<noteq> 0" and "continuation_range d" and "scalar_value c"
  shows "utf8_run d (utf8_encode c) = (utf8_initial, [0xFFFD, c])"
proof -
  obtain b bs where enc: "utf8_encode c = b # bs" and b: "b < 0x80 \<or> 0xC0 \<le> b"
    using utf8_encode_first[OF assms(3)] by blast
  have whole: "utf8_run utf8_initial (b # bs) = (utf8_initial, [c])"
    using utf8_run_encode[OF assms(3)] by (simp only: enc)
  obtain d1 o1 where h: "utf8_handler utf8_initial b = (d1, o1)"
    by (cases "utf8_handler utf8_initial b")
  obtain d2 o2 where r: "utf8_run d1 bs = (d2, o2)" by (cases "utf8_run d1 bs")
  from whole h r have res: "d2 = utf8_initial" "o1 @ o2 = [c]" by simp_all
  have "utf8_handler d b = (d1, 0xFFFD # o1)"
    using utf8_handler_resync[OF assms(1,2) b] h by simp
  then have "utf8_run d (b # bs) = (d2, (0xFFFD # o1) @ o2)" using r by simp
  with res show ?thesis unfolding enc by simp
qed

lemma utf8_run_encode_any:
  assumes "bytes_needed d = 0 \<longrightarrow> d = utf8_initial" and "continuation_range d"
    and "scalar_value c"
  shows "utf8_run d (utf8_encode c) =
           (utf8_initial, (if bytes_needed d = 0 then [] else [0xFFFD]) @ [c])"
proof (cases "bytes_needed d = 0")
  case True
  with assms(1) have "d = utf8_initial" by simp
  with True show ?thesis using utf8_run_encode[OF assms(3)] by simp
next
  case False
  then show ?thesis using utf8_run_encode_pending[OF False assms(2,3)] by simp
qed

lemma serialize_replaced: "serialize seen [0xFFFD, c] = (True, 0xFFFD # utf16 c)"
  by (simp add: utf16_def)

lemma serialize_one:
  "serialize seen [c] = (True, if c = 0xFEFF \<and> \<not> seen then [] else utf16 c)"
  by simp

lemma decode_character:
  assumes "scalar_value c" and "dec = snd (decode new_TextDecoder bs)"
  shows "decode dec (utf8_bytes c) =
           ((if bytes_needed (utf8 dec) = 0 then [] else [0xFFFD]) @
            (if c = 0xFEFF \<and> \<not> BOM_seen dec \<and> bytes_needed (utf8 dec) = 0 then []
             else utf16 c),
            \<lparr>utf8 = utf8_initial, BOM_seen = True\<rparr>)"
proof -
  have rest: "bytes_needed (utf8 dec) = 0 \<longrightarrow> utf8 dec = utf8_initial"
    unfolding assms(2) by (rule decoder_rest)
  have range: "continuation_range (utf8 dec)"
    unfolding assms(2) by (rule decoder_range)
  have run: "utf8_run (utf8 dec) (map unat (utf8_bytes c)) =
           (utf8_initial, (if bytes_needed (utf8 dec) = 0 then [] else [0xFFFD]) @ [c])"
    using utf8_run_encode_any[OF rest range assms(1)] assms(1) by (simp only: unat_utf8_bytes)
  show ?thesis
  proof (cases "bytes_needed (utf8 dec) = 0")
    case True
    with run have "utf8_run (utf8 dec) (map unat (utf8_bytes c)) = (utf8_initial, [c])" by simp
    then show ?thesis
      unfolding decode_def using True by (simp only: serialize_one prod.case) simp
  next
    case False
    with run have "utf8_run (utf8 dec) (map unat (utf8_bytes c)) = (utf8_initial, [0xFFFD, c])"
      by simp
    then show ?thesis
      unfolding decode_def using False by (simp only: serialize_replaced prod.case) simp
  qed
qed

section \<open>The page keeps at most one submission in flight\<close>

lemma replace_last_last: "last (replace_last xs t) = (if xs = [] then last [] else t)"
  by (simp add: replace_last_def last_list_update)

lemma replace_last_Nil_iff: "replace_last xs t = [] \<longleftrightarrow> xs = []"
  by (simp add: replace_last_def)

lemma fire_inv_idle: "\<not> isLoading s \<Longrightarrow> fire (s, []) e = Some b \<Longrightarrow> app_inv b"
  by (cases e) (auto simp: handleSubmit_begin_def handleClearChat_def split: if_splits)

lemma fire_inv_fetching:
  "isLoading s \<Longrightarrow> fire (s, [Fetching req]) e = Some b \<Longrightarrow> app_inv b"
  by (cases e)
    (auto simp: handleClearChat_def resume_def drop_task_def handleSubmit_response_def
      finally_clause_def catch_clause_def
      split: if_splits fetch_result.splits)

lemma fire_inv_streaming:
  "isLoading s \<Longrightarrow> task_inv s (Streaming l) \<Longrightarrow> fire (s, [Streaming l]) e = Some b \<Longrightarrow> app_inv b"
  by (cases e)
    (auto simp: handleClearChat_def resume_def drop_task_def handleSubmit_read_def
      finally_clause_def catch_clause_def replace_last_last replace_last_Nil_iff
      split: if_splits read_result.splits prod.splits)

lemma fire_inv: "app_inv a \<Longrightarrow> fire a e = Some b \<Longrightarrow> app_inv b"
proof (cases a)
  case (Pair s ts)
  assume inv: "app_inv a" and step: "fire a e = Some b"
  show ?thesis
  proof (cases ts)
    case Nil
    with Pair inv step show ?thesis by (auto dest: fire_inv_idle)
  next
    case (Cons t ts')
    with Pair inv have ts': "ts' = []" by (cases ts') auto
    show ?thesis
    proof (cases t)
      case (Fetching req)
      with Pair Cons ts' inv step show ?thesis by (auto dest: fire_inv_fetching)
    next
      case (Streaming l)
      with Pair Cons ts' inv step show ?thesis by (auto dest: fire_inv_streaming)
    qed
  qed
qed

lemma run_inv: "app_inv a \<Longrightarrow> run a es = Some b \<Longrightarrow> app_inv b"
  by (induction es arbitrary: a) (auto split: option.splits dest: fire_inv)

lemma app_inv_initial: "app_inv initial_app"
  by (simp add: initial_app_def initial_page_def)

text \<open>
  A stream whose turns were cleared stays orphaned: whatever event the page offers next,
  the turn list is still empty afterwards, and the stream has ended or is still the only
  task.
\<close>

lemma orphan_step:
  assumes "isLoading s" and "messages s = []" and "fire (s, [Streaming l]) e = Some (s', ts')"
  shows "messages s' = [] \<and> (ts' = [] \<or> (isLoading s' \<and> (\<exists>l'. ts' = [Streaming l'])))"
  using assms
  by (cases e)
    (auto simp: resume_def drop_task_def handleSubmit_read_def finally_clause_def
      catch_clause_def replace_last_def split: if_splits read_result.splits prod.splits)

text \<open>So, without a new submission, the turn list stays empty.\<close>

lemma cleared_step:
  assumes "messages s = []" and "ts = [] \<or> (isLoading s \<and> (\<exists>l. ts = [Streaming l]))"
    and "e \<noteq> SubmitForm" and "fire (s, ts) e = Some (s', ts')"
  shows "messages s' = [] \<and> (ts' = [] \<or> (isLoading s' \<and> (\<exists>l. ts' = [Streaming l])))"
proof (cases "ts = []")
  case True
  with assms(1,3,4) show ?thesis by (cases e) (auto split: if_splits)
next
  case False
  with assms(2) obtain l where "isLoading s" "ts = [Streaming l]" by blast
  with assms(1,4) show ?thesis by (auto dest: orphan_step)
qed

lemma cleared_run:
  "messages s = [] \<Longrightarrow> ts = [] \<or> (isLoading s \<and> (\<exists>l. ts = [Streaming l])) \<Longrightarrow>
   SubmitForm \<notin> set evs \<Longrightarrow> run (s, ts) evs = Some (s', ts') \<Longrightarrow>
   messages s' = [] \<and> (ts' = [] \<or> (isLoading s' \<and> (\<exists>l. ts' = [Streaming l])))"
proof (induction evs arbitrary: s ts)
  case Nil
  then show ?case by simp
next
  case (Cons e evs)
  from Cons.prems(4) obtain s1 ts1 where f: "fire (s, ts) e = Some (s1, ts1)"
    and r: "run (s1, ts1) evs = Some (s', ts')"
    by (cases "fire (s, ts) e") auto
  from Cons.prems(3) have e: "e \<noteq> SubmitForm" and evs: "SubmitForm \<notin> set evs" by auto
  have "messages s1 = [] \<and> (ts1 = [] \<or> (isLoading s1 \<and> (\<exists>l. ts1 = [Streaming l])))"
    using Cons.prems(1,2) e f by (rule cleared_step)
  then show ?case using evs r Cons.IH by blast
qed

lemma run_append:
  "run a (es @ es') = (case run a es of None \<Rightarrow> None | Some a' \<Rightarrow> run a' es')"
  by (induction es arbitrary: a) (auto split: option.splits)

section \<open>The handlers, step by step\<close>

lemmas decoder_defs = decode_def utf8_handler_def utf8_lead_def utf8_initial_def
  new_TextDecoder_def utf16_def Let_def

lemmas string_defs = lit_def trim_def isWhiteSpace_def falsy_def

lemmas handler_defs = handleSubmit_def handleSubmit_key_def handleSubmit_begin_def
  handleSubmit_begin_key_def handleSubmit_continue_def handleSubmit_response_def
  handleSubmit_read_def catch_clause_def finally_clause_def replace_last_def
  handleClearChat_def user_turn_def assistant_turn_def ok_def resume_def drop_task_def
  initial_app_def initial_page_def initial_page_key_def

lemma trim_nonempty: "\<not> falsy (trim s) \<Longrightarrow> s \<noteq> []"
  by (auto simp: falsy_def trim_def)

lemma user_not_assistant: "\<not> is_assistant (user_turn c)"
  by (simp add: is_assistant_def user_turn_def lit_def)

lemma begin_accepts:
  "\<not> falsy (trim (userMessage s)) \<Longrightarrow>
   handleSubmit_begin s =
     (s\<lparr>error := [], isLoading := True, messages := messages s @ [user_turn (userMessage s)]\<rparr>,
      Some \<lparr>developer_message =
               (if falsy (developerMessage s) then lit ''You are a helpful assistant.''
                else developerMessage s),
            user_message = userMessage s, request_model = model s, api_key = None\<rparr>)"
  by (simp add: handleSubmit_begin_def)

lemma begin_key_accepts:
  "\<not> falsy (trim (userMessage k)) \<Longrightarrow> \<not> falsy (trim (apiKey k)) \<Longrightarrow>
   handleSubmit_begin_key k =
     (k\<lparr>error := [], isLoading := True, messages := messages k @ [user_turn (userMessage k)]\<rparr>,
      Some \<lparr>developer_message =
               (if falsy (developerMessage k) then lit ''You are a helpful assistant.''
                else developerMessage k),
            user_message = userMessage k, request_model = model k,
            api_key = Some (apiKey k)\<rparr>)"
  by (simp add: handleSubmit_begin_key_def begin_accepts)

lemma response_ok:
  "ok status \<Longrightarrow> handleSubmit_response s (Response status True) =
     (s\<lparr>messages := messages s @ [assistant_turn []]\<rparr>,
      Some \<lparr>decoder = new_TextDecoder, assistantMessage = []\<rparr>)"
  by (simp add: handleSubmit_response_def)

lemma response_not_ok:
  "\<not> ok status \<Longrightarrow> handleSubmit_response s (Response status body) =
     (s\<lparr>error := lit ''API error: '' @ decimal status,
        messages := filter (\<lambda>msg. content msg \<noteq> []) (messages s), isLoading := False\<rparr>, None)"
  by (simp add: handleSubmit_response_def catch_clause_def finally_clause_def)

text \<open>
  While chunks arrive, the loop rewrites the last turn with everything decoded so far.
\<close>

lemma replace_last_snoc: "replace_last (ms @ [x]) t = ms @ [t]"
  by (simp add: replace_last_def)

lemma read_loop_chunks:
  "read_loop (s\<lparr>messages := ms @ [assistant_turn am]\<rparr>)
             \<lparr>decoder = dec, assistantMessage = am\<rparr> (map Chunk vals @ rs) =
   read_loop (s\<lparr>messages := ms @ [assistant_turn (am @ concat (increments dec vals))]\<rparr>)
             \<lparr>decoder = decoder_after dec vals,
              assistantMessage = am @ concat (increments dec vals)\<rparr> rs"
proof (induction vals arbitrary: dec am)
  case Nil
  show ?case by simp
next
  case (Cons val vals)
  obtain chunk dec' where d: "decode dec val = (chunk, dec')" by (cases "decode dec val")
  have "read_loop (s\<lparr>messages := ms @ [assistant_turn am]\<rparr>)
          \<lparr>decoder = dec, assistantMessage = am\<rparr> (map Chunk (val # vals) @ rs) =
        read_loop (s\<lparr>messages := ms @ [assistant_turn (am @ chunk)]\<rparr>)
          \<lparr>decoder = dec', assistantMessage = am @ chunk\<rparr> (map Chunk vals @ rs)"
    by (simp add: handleSubmit_read_def d replace_last_snoc)
  also note Cons.IH
  finally show ?case by (simp add: d)
qed

lemma continue_chunks:
  assumes "ok status"
  shows "handleSubmit_continue s (Response status True) (map Chunk vals @ rs) =
     read_loop (s\<lparr>messages := messages s @ [assistant_turn (concat (increments new_TextDecoder vals))]\<rparr>)
       \<lparr>decoder = decoder_after new_TextDecoder vals,
        assistantMessage = concat (increments new_TextDecoder vals)\<rparr> rs"
  using read_loop_chunks[where s = s and ms = "messages s" and am = "[]" and dec = new_TextDecoder
      and vals = vals and rs = rs]
  by (simp add: handleSubmit_continue_def response_ok[OF assms])

lemma continue_streaming:
  "ok status \<Longrightarrow>
   handleSubmit_continue s (Response status True) (map Chunk vals) =
     (s\<lparr>messages := messages s @ [assistant_turn (concat (increments new_TextDecoder vals))]\<rparr>,
      Some \<lparr>decoder = decoder_after new_TextDecoder vals,
            assistantMessage = concat (increments new_TextDecoder vals)\<rparr>)"
  using continue_chunks[where rs = "[]" and vals = vals and s = s and status = status] by simp

lemma continue_start:
  "ok status \<Longrightarrow>
   handleSubmit_continue s (Response status True) [] =
     (s\<lparr>messages := messages s @ [assistant_turn []]\<rparr>,
      Some \<lparr>decoder = new_TextDecoder, assistantMessage = []\<rparr>)"
  by (simp add: handleSubmit_continue_def response_ok)

text \<open>Once the turn list is empty, nothing the loop does adds a turn.\<close>

lemma read_loop_cleared: "messages s = [] \<Longrightarrow> messages (fst (read_loop s l rs)) = []"
proof (induction rs arbitrary: s l)
  case Nil
  then show ?case by simp
next
  case (Cons r rs)
  show ?case
  proof (cases r)
    case (Chunk val)
    obtain chunk dec' where d: "decode (decoder l) val = (chunk, dec')"
      by (cases "decode (decoder l) val")
    show ?thesis using Cons.prems
      by (simp add: Chunk handleSubmit_read_def d replace_last_def Cons.IH)
  next
    case Done
    with Cons.prems show ?thesis by (simp add: handleSubmit_read_def finally_clause_def)
  next
    case (ReadRejected err)
    with Cons.prems show ?thesis
      by (simp add: handleSubmit_read_def finally_clause_def catch_clause_def)
  qed
qed

text \<open>Two reads, or one read of the same bytes.\<close>

lemma replace_last_twice: "replace_last (replace_last ms t) t' = replace_last ms t'"
  by (simp add: replace_last_def)

lemma read_loop_two_chunks:
  "read_loop s l [Chunk x, Chunk y] = read_loop s l [Chunk (x @ y)]"
  by (simp add: handleSubmit_read_def decode_append replace_last_twice split: prod.splits)

text \<open>Reading a digit string with one more digit.\<close>

lemma digits_value_snoc: "digits_value (ds @ [d]) = 10 * digits_value ds + (d - 48)"
  by (simp add: digits_value_def)

subsection \<open>Runs on concrete inputs\<close>

lemma hi_not_blank: "\<not> falsy (trim (lit ''hi''))"
  by (simp add: string_defs)

lemma key_not_blank: "\<not> falsy (trim (lit ''sk-1''))"
  by (simp add: string_defs)

lemma blank_is_blank: "falsy (trim (lit ''  ''))"
  by (simp add: string_defs)

lemma decimal_500: "decimal 500 = lit ''500''"
  by (simp add: decimal.simps lit_def)

lemma stream_example:
  "concat (increments new_TextDecoder [[0x48, 0xC3], [0xA9]]) = [0x48, 0xE9]"
  by (simp add: decoder_defs)

lemma broken_stream_example:
  "concat (increments new_TextDecoder [[0x48, 0xC3]]) = [0x48]"
  by (simp add: decoder_defs)

lemma after_H: "decoder_after new_TextDecoder [[0x48]] = \<lparr>utf8 = utf8_initial, BOM_seen = True\<rparr>"
  by (simp add: decoder_defs)

lemma hi_units: "lit ''hi'' = [104, 105]"
  by (simp add: lit_def)

lemma api_error_500: "lit ''API error: '' @ decimal 500 =
    [65, 80, 73, 32, 101, 114, 114, 111, 114, 58, 32, 53, 48, 48]"
  by (simp add: decimal_500 lit_def)

lemma emoji_stream:
  "concat [[0x48, 0xC3], [0xA9, 0xF0, 0x9F], [0x98, 0x80]] =
   concat (map utf8_bytes (concat [[0x48], [0xE9, 0x1F600]]))"
  by (simp add: utf8_bytes_def utf8_encode_def)

lemma bom_stream:
  "concat [[0xEF, 0xBB, 0xBF], [0x41]] = concat (map utf8_bytes (concat [[0xFEFF], [0x41]]))"
  by (simp add: utf8_bytes_def utf8_encode_def)

lemma bom_then_A: "concat (increments new_TextDecoder [[0xEF, 0xBB, 0xBF], [0x41]]) = [0x41]"
  by (simp add: decoder_defs)

lemma after_euro_lead:
  "decode \<lparr>utf8 = utf8_initial, BOM_seen = True\<rparr> [0xE2] =
     ([], \<lparr>utf8 = \<lparr>code_point = 2, bytes_seen = 0, bytes_needed = 2,
                     lower_boundary = 0x80, upper_boundary = 0xBF\<rparr>, BOM_seen = True\<rparr>)"
  by (simp add: decoder_defs)

lemma emoji_bytes: "utf8_bytes 0x1F600 = [0xF0, 0x9F] @ [0x98, 0x80]"
  by (simp add: utf8_bytes_def utf8_encode_def)

lemma hi_request:
  "handleSubmit_begin (initial_page\<lparr>userMessage := lit ''hi''\<rparr>) =
     (initial_page\<lparr>userMessage := lit ''hi'', isLoading := True,
        messages := [user_turn (lit ''hi'')]\<rparr>,
      Some \<lparr>developer_message = lit ''You are a helpful assistant.'', user_message = lit ''hi'',
            request_model = lit ''gpt-4.1-mini'', api_key = None\<rparr>)"
  using begin_accepts[where s = "initial_page\<lparr>userMessage := lit ''hi''\<rparr>"] hi_not_blank
  by (simp add: initial_page_def falsy_def)

lemma run_submitted:
  "run initial_app [TypeUserMessage (lit ''hi''), SubmitForm] =
     Some (initial_page\<lparr>userMessage := lit ''hi'', isLoading := True,
             messages := [user_turn (lit ''hi'')]\<rparr>,
           [Fetching \<lparr>developer_message = lit ''You are a helpful assistant.'',
                      user_message = lit ''hi'', request_model = lit ''gpt-4.1-mini'',
                      api_key = None\<rparr>])"
proof -
  have "fire initial_app (TypeUserMessage (lit ''hi'')) =
          Some (initial_page\<lparr>userMessage := lit ''hi''\<rparr>, [])"
    by (simp add: initial_app_def initial_page_def)
  moreover have "\<not> isLoading (initial_page\<lparr>userMessage := lit ''hi''\<rparr>)"
    by (simp add: initial_page_def)
  ultimately show ?thesis by (simp add: hi_request)
qed

lemma run_streaming:
  "run initial_app [TypeUserMessage (lit ''hi''), SubmitForm, FetchSettled 0 (Response 200 True),
      ReadSettled 0 (Chunk [0x48])] =
     Some (initial_page\<lparr>userMessage := lit ''hi'', isLoading := True,
             messages := [user_turn (lit ''hi''), assistant_turn [0x48]]\<rparr>,
           [Streaming \<lparr>decoder = \<lparr>utf8 = utf8_initial, BOM_seen = True\<rparr>,
                       assistantMessage = [0x48]\<rparr>])"
proof -
  have d: "decode new_TextDecoder [0x48] = ([0x48], \<lparr>utf8 = utf8_initial, BOM_seen = True\<rparr>)"
    by (simp add: decoder_defs)
  have split: "[TypeUserMessage (lit ''hi''), SubmitForm, FetchSettled 0 (Response 200 True),
      ReadSettled 0 (Chunk [0x48])] = [TypeUserMessage (lit ''hi''), SubmitForm] @
      [FetchSettled 0 (Response 200 True), ReadSettled 0 (Chunk [0x48])]" by simp
  have run_append: "\<And>a es es'. run a (es @ es') = (case run a es of None \<Rightarrow> None | Some a' \<Rightarrow> run a' es')"
  proof -
    fix a es es' show "run a (es @ es') = (case run a es of None \<Rightarrow> None | Some a' \<Rightarrow> run a' es')"
      by (induction es arbitrary: a) (auto split: option.splits)
  qed
  show ?thesis
    unfolding split run_append run_submitted
    by (simp add: resume_def handleSubmit_response_def ok_def handleSubmit_read_def d
        replace_last_def)
qed

lemma run_orphaned:
  "run (handleClearChat (initial_page\<lparr>userMessage := lit ''hi'', isLoading := True,
             messages := [user_turn (lit ''hi''), assistant_turn [0x48]]\<rparr>),
        [Streaming \<lparr>decoder = \<lparr>utf8 = utf8_initial, BOM_seen = True\<rparr>,
                    assistantMessage = [0x48]\<rparr>])
     [ReadSettled 0 (Chunk [0x69]), ReadSettled 0 Done] =
   Some (initial_page, [])"
proof -
  have d: "decode \<lparr>utf8 = utf8_initial, BOM_seen = True\<rparr> [0x69] =
             ([0x69], \<lparr>utf8 = utf8_initial, BOM_seen = True\<rparr>)"
    by (simp add: decoder_defs)
  show ?thesis
    by (simp add: handleClearChat_def resume_def handleSubmit_read_def d replace_last_def
        finally_clause_def drop_task_def initial_page_def)
qed

section \<open>The properties of the specification\<close>

text \<open>
  C1, as amended. After a successful response whose body delivers the chunks \<open>vals\<close>
  and then ends, the submission finishes with an assistant turn as the last turn; its
  content is what the decoder makes of the bytes as a whole, so every other chunking
  \<open>vals'\<close> of the same bytes ends in the same state. When the bytes are the UTF-8
  form of the text increments \<open>incs\<close>, that content is the concatenation of the
  increments without the U+FEFF it may start with, which the decoder takes off as a byte
  order mark.
\<close>

theorem stream_concatenation:
  assumes "200 \<le> status \<and> status \<le> 299"
  shows "handleSubmit_continue s (Response status True) (map Chunk vals @ [Done]) =
           (s\<lparr>messages := messages s @
                 [\<lparr>role = lit ''assistant'',
                   content = fst (decode new_TextDecoder (concat vals))\<rparr>],
              userMessage := [], isLoading := False\<rparr>, None) \<and>
         (concat vals' = concat vals \<longrightarrow>
            handleSubmit_continue s (Response status True) (map Chunk vals' @ [Done]) =
            handleSubmit_continue s (Response status True) (map Chunk vals @ [Done])) \<and>
         ((\<forall>c\<in>set (concat incs). scalar_value c) \<and>
          concat vals = concat (map utf8_bytes (concat incs)) \<longrightarrow>
            handleSubmit_continue s (Response status True) (map Chunk vals @ [Done]) =
              (s\<lparr>messages := messages s @
                    [\<lparr>role = lit ''assistant'',
                      content = concat (map utf16 (strip_BOM (concat incs)))\<rparr>],
                 userMessage := [], isLoading := False\<rparr>, None))"
proof -
  have ok: "ok status" using assms(1) by (simp add: ok_def)
  have whole: "\<And>vs. handleSubmit_continue s (Response status True) (map Chunk vs @ [Done]) =
           (s\<lparr>messages := messages s @
                 [\<lparr>role = lit ''assistant'',
                   content = fst (decode new_TextDecoder (concat vs))\<rparr>],
              userMessage := [], isLoading := False\<rparr>, None)"
    by (simp add: continue_chunks[OF ok] handleSubmit_read_def finally_clause_def
        increments_concat assistant_turn_def)
  have sent: "(\<forall>c\<in>set (concat incs). scalar_value c) \<and>
          concat vals = concat (map utf8_bytes (concat incs)) \<longrightarrow>
          fst (decode new_TextDecoder (concat vals)) =
            concat (map utf16 (strip_BOM (concat incs)))"
  proof
    assume h: "(\<forall>c\<in>set (concat incs). scalar_value c) \<and>
          concat vals = concat (map utf8_bytes (concat incs))"
    have u: "utf8 new_TextDecoder = utf8_initial" by (simp add: new_TextDecoder_def)
    have "decode new_TextDecoder (concat (map utf8_bytes (concat incs))) =
          (concat (map utf16 (if BOM_seen new_TextDecoder then concat incs
                              else strip_BOM (concat incs))),
           \<lparr>utf8 = utf8_initial, BOM_seen = (BOM_seen new_TextDecoder \<or> concat incs \<noteq> [])\<rparr>)"
      using conjunct1[OF h] u by (rule decode_utf8_text)
    then show "fst (decode new_TextDecoder (concat vals)) =
            concat (map utf16 (strip_BOM (concat incs)))"
      unfolding conjunct2[OF h] by (simp add: new_TextDecoder_def)
  qed
  have a: "handleSubmit_continue s (Response status True) (map Chunk vals @ [Done]) =
           (s\<lparr>messages := messages s @
                 [\<lparr>role = lit ''assistant'',
                   content = fst (decode new_TextDecoder (concat vals))\<rparr>],
              userMessage := [], isLoading := False\<rparr>, None)" by (rule whole)
  have b: "concat vals' = concat vals \<longrightarrow>
            handleSubmit_continue s (Response status True) (map Chunk vals' @ [Done]) =
            handleSubmit_continue s (Response status True) (map Chunk vals @ [Done])"
    unfolding whole by simp
  have c: "(\<forall>c\<in>set (concat incs). scalar_value c) \<and>
          concat vals = concat (map utf8_bytes (concat incs)) \<longrightarrow>
            handleSubmit_continue s (Response status True) (map Chunk vals @ [Done]) =
              (s\<lparr>messages := messages s @
                    [\<lparr>role = lit ''assistant'',
                      content = concat (map utf16 (strip_BOM (concat incs)))\<rparr>],
                 userMessage := [], isLoading := False\<rparr>, None)"
    unfolding whole using sent by simp
  from a b c show ?thesis by (intro conjI)
qed

text \<open>
  "H", then an accented "e" and an emoji, in three chunks cut inside both multi-byte
  characters.
\<close>

theorem stream_concatenation_witness:
  "(200 \<le> (200 :: nat) \<and> (200 :: nat) \<le> 299) \<and>
   (scalar_value 0x48 \<and> scalar_value 0xE9 \<and> scalar_value 0x1F600) \<and>
   concat [[0x48, 0xC3], [0xA9, 0xF0, 0x9F], [0x98, 0x80]] =
     concat (map utf8_bytes (concat [[0x48], [0xE9, 0x1F600]])) \<and>
   handleSubmit_continue
     (initial_page\<lparr>messages := [\<lparr>role = [117, 115, 101, 114], content = [104, 105]\<rparr>]\<rparr>)
     (Response 200 True)
     (map Chunk [[0x48, 0xC3], [0xA9, 0xF0, 0x9F], [0x98, 0x80]] @ [Done]) =
     (initial_page\<lparr>messages :=
        [\<lparr>role = [117, 115, 101, 114], content = [104, 105]\<rparr>,
         \<lparr>role = [97, 115, 115, 105, 115, 116, 97, 110, 116],
          content = [0x48, 0xE9, 0xD83D, 0xDE00]\<rparr>],
        userMessage := [], isLoading := False\<rparr>, None)"
proof -
  have h1: "200 \<le> (200 :: nat) \<and> (200 :: nat) \<le> 299" by simp
  have h2: "\<forall>c\<in>set (concat [[0x48], [0xE9, 0x1F600]]). scalar_value c"
    by (simp add: scalar_value_def)
  have h3: "concat [[0x48, 0xC3], [0xA9, 0xF0, 0x9F], [0x98, 0x80]] =
     concat (map utf8_bytes (concat [[0x48], [0xE9, 0x1F600]]))"
    by (simp add: utf8_bytes_def utf8_encode_def)
  have computed: "handleSubmit_continue
     (initial_page\<lparr>messages := [\<lparr>role = [117, 115, 101, 114], content = [104, 105]\<rparr>]\<rparr>)
     (Response 200 True)
     (map Chunk [[0x48, 0xC3], [0xA9, 0xF0, 0x9F], [0x98, 0x80]] @ [Done]) =
     (initial_page\<lparr>messages :=
        [\<lparr>role = [117, 115, 101, 114], content = [104, 105]\<rparr>,
         \<lparr>role = [97, 115, 115, 105, 115, 116, 97, 110, 116],
          content = [0x48, 0xE9, 0xD83D, 0xDE00]\<rparr>],
        userMessage := [], isLoading := False\<rparr>, None)"
    by (simp add: handler_defs decoder_defs lit_def)
  have proved: "handleSubmit_continue
     (initial_page\<lparr>messages := [\<lparr>role = [117, 115, 101, 114], content = [104, 105]\<rparr>]\<rparr>)
     (Response 200 True)
     (map Chunk [[0x48, 0xC3], [0xA9, 0xF0, 0x9F], [0x98, 0x80]] @ [Done]) =
     (initial_page\<lparr>messages :=
        messages (initial_page\<lparr>messages := [\<lparr>role = [117, 115, 101, 114], content = [104, 105]\<rparr>]\<rparr>) @
        [\<lparr>role = lit ''assistant'',
          content = concat (map utf16 (strip_BOM (concat [[0x48], [0xE9, 0x1F600]])))\<rparr>],
        userMessage := [], isLoading := False\<rparr>, None)"
    using stream_concatenation[OF h1, where incs = "[[0x48], [0xE9, 0x1F600]]"
        and vals = "[[0x48, 0xC3], [0xA9, 0xF0, 0x9F], [0x98, 0x80]]"
        and s = "initial_page\<lparr>messages := [\<lparr>role = [117, 115, 101, 114], content = [104, 105]\<rparr>]\<rparr>",
        THEN conjunct2, THEN conjunct2] h2 h3
    by (simp del: read_loop.simps)
  from proved computed h1 h2 h3 show ?thesis by (simp add: utf16_def lit_def)
qed

text \<open>
  The claim as stated fails when the text starts with U+FEFF: the increments U+FEFF and
  "A" end as the content "A", not as their concatenation.
\<close>

theorem stream_concatenation_counterexample:
  "(scalar_value 0xFEFF \<and> scalar_value 0x41) \<and>
   concat [[0xEF, 0xBB, 0xBF], [0x41]] = concat (map utf8_bytes (concat [[0xFEFF], [0x41]])) \<and>
   concat (map utf16 (concat [[0xFEFF], [0x41]])) = [0xFEFF, 0x41] \<and>
   handleSubmit_continue
     (initial_page\<lparr>messages := [\<lparr>role = [117, 115, 101, 114], content = [104, 105]\<rparr>]\<rparr>)
     (Response 200 True) (map Chunk [[0xEF, 0xBB, 0xBF], [0x41]] @ [Done]) =
     (initial_page\<lparr>messages := [\<lparr>role = [117, 115, 101, 114], content = [104, 105]\<rparr>, \<lparr>role = [97, 115, 115, 105, 115, 116, 97, 110, 116], content = [0x41]\<rparr>],
        userMessage := [], isLoading := False\<rparr>, None)"
  by (simp add: handler_defs decoder_defs lit_def scalar_value_def utf8_bytes_def utf8_encode_def)

text \<open>
  C2, as amended. A submission that passes validation and whose response has a status
  outside 200..299 ends with the one error message "API error: " followed by the status
  in decimal, and loading ends. The submission adds no assistant turn: the assistant
  turns afterwards are the earlier ones with non-empty content, and no turn with empty
  content remains. The user turn of the failed submission stays in the conversation, and
  so does the text in the input. The body, if any, is never read.
\<close>

theorem api_error_no_assistant_turn:
  assumes "\<not> falsy (trim (userMessage s))" and "status < 200 \<or> 299 < status"
  shows "handleSubmit s (Response status body) rs =
           (s\<lparr>error := lit ''API error: '' @ decimal status, isLoading := False,
              messages := filter (\<lambda>msg. content msg \<noteq> []) (messages s) @
                          [\<lparr>role = lit ''user'', content = userMessage s\<rparr>]\<rparr>, None) \<and>
         digits_value (decimal status) = status \<and>
         list_all (\<lambda>d. 48 \<le> d \<and> d \<le> 57) (decimal status) \<and>
         filter (\<lambda>msg. role msg = lit ''assistant'')
           (messages (fst (handleSubmit s (Response status body) rs))) =
           filter (\<lambda>msg. content msg \<noteq> [])
             (filter (\<lambda>msg. role msg = lit ''assistant'') (messages s)) \<and>
         list_all (\<lambda>msg. content msg \<noteq> [])
           (messages (fst (handleSubmit s (Response status body) rs)))"
proof -
  have ne: "userMessage s \<noteq> []" using assms(1) by (rule trim_nonempty)
  have nok: "\<not> ok status" using assms(2) by (auto simp: ok_def)
  have run: "handleSubmit s (Response status body) rs =
           (s\<lparr>error := lit ''API error: '' @ decimal status, isLoading := False,
              messages := filter (\<lambda>msg. content msg \<noteq> []) (messages s) @
                          [\<lparr>role = lit ''user'', content = userMessage s\<rparr>]\<rparr>, None)"
    using ne
    by (simp add: handleSubmit_def begin_accepts[OF assms(1)] handleSubmit_continue_def
        response_not_ok[OF nok] user_turn_def)
  have ua: "lit ''user'' \<noteq> lit ''assistant''" by (simp add: lit_def)
  have flt: "filter (\<lambda>msg. role msg = lit ''assistant'')
               (filter (\<lambda>msg. content msg \<noteq> []) (messages s)) =
             filter (\<lambda>msg. content msg \<noteq> [])
               (filter (\<lambda>msg. role msg = lit ''assistant'') (messages s))"
    by (induction "messages s") (auto intro: filter_cong)
  have asst: "filter (\<lambda>msg. role msg = lit ''assistant'')
           (messages (fst (handleSubmit s (Response status body) rs))) =
           filter (\<lambda>msg. content msg \<noteq> [])
             (filter (\<lambda>msg. role msg = lit ''assistant'') (messages s))"
    unfolding run flt[symmetric] using ua by (simp del: filter_filter)
  have full: "list_all (\<lambda>msg. content msg \<noteq> [])
           (messages (fst (handleSubmit s (Response status body) rs)))"
    unfolding run using ne by (simp add: list_all_iff)
  have reads_back: "\<And>n. digits_value (decimal n) = n \<and>
                 list_all (\<lambda>d. 48 \<le> d \<and> d \<le> 57) (decimal n) \<and> decimal n \<noteq> []"
  proof -
    fix n
    show "digits_value (decimal n) = n \<and>
          list_all (\<lambda>d. 48 \<le> d \<and> d \<le> 57) (decimal n) \<and> decimal n \<noteq> []"
    proof (induction n rule: decimal.induct)
      case (1 n)
      show ?case
      proof (cases "n < 10")
        case True
        then show ?thesis by (simp add: decimal.simps[of n] digits_value_def)
      next
        case False
        have m: "n mod 10 < 10" by simp
        from False 1 have ih: "digits_value (decimal (n div 10)) = n div 10"
          "list_all (\<lambda>d. 48 \<le> d \<and> d \<le> 57) (decimal (n div 10))" by simp_all
        have eq: "decimal n = decimal (n div 10) @ [48 + n mod 10]"
          using False by (simp add: decimal.simps[of n])
        have "digits_value (decimal n) = 10 * (n div 10) + n mod 10"
          unfolding eq digits_value_snoc ih by simp
        moreover have "48 + n mod 10 \<le> 57" using m by linarith
        ultimately show ?thesis unfolding eq using ih(2) by simp
      qed
    qed
  qed
  from run asst full reads_back[of status] show ?thesis by (intro conjI) simp_all
qed

text \<open>Status 404 on a message sent after a reply that stayed empty.\<close>

theorem api_error_no_assistant_turn_witness:
  "\<not> falsy (trim (userMessage (initial_page\<lparr>userMessage := [104, 105],
       messages := [\<lparr>role = [117, 115, 101, 114], content = [104, 105]\<rparr>, \<lparr>role = [97, 115, 115, 105, 115, 116, 97, 110, 116], content = []\<rparr>]\<rparr>))) \<and>
   ((404 :: nat) < 200 \<or> (299 :: nat) < 404) \<and>
   handleSubmit (initial_page\<lparr>userMessage := [104, 105],
       messages := [\<lparr>role = [117, 115, 101, 114], content = [104, 105]\<rparr>, \<lparr>role = [97, 115, 115, 105, 115, 116, 97, 110, 116], content = []\<rparr>]\<rparr>) (Response 404 True) [] =
     (initial_page\<lparr>userMessage := [104, 105], error := [65, 80, 73, 32, 101, 114, 114, 111, 114, 58, 32, 52, 48, 52],
        messages := [\<lparr>role = [117, 115, 101, 114], content = [104, 105]\<rparr>, \<lparr>role = [117, 115, 101, 114], content = [104, 105]\<rparr>]\<rparr>, None) \<and>
   decimal 404 = [52, 48, 52] \<and> digits_value [52, 48, 52] = 404 \<and>
   filter (\<lambda>msg. role msg = [97, 115, 115, 105, 115, 116, 97, 110, 116])
     (messages (fst (handleSubmit (initial_page\<lparr>userMessage := [104, 105],
       messages := [\<lparr>role = [117, 115, 101, 114], content = [104, 105]\<rparr>, \<lparr>role = [97, 115, 115, 105, 115, 116, 97, 110, 116], content = []\<rparr>]\<rparr>) (Response 404 True) []))) = []"
proof -
  have h1: "\<not> falsy (trim (userMessage (initial_page\<lparr>userMessage := [104, 105],
       messages := [\<lparr>role = [117, 115, 101, 114], content = [104, 105]\<rparr>, \<lparr>role = [97, 115, 115, 105, 115, 116, 97, 110, 116], content = []\<rparr>]\<rparr>)))"
    by (simp add: string_defs)
  have h2: "(404 :: nat) < 200 \<or> (299 :: nat) < 404" by simp
  have computed: "handleSubmit (initial_page\<lparr>userMessage := [104, 105],
       messages := [\<lparr>role = [117, 115, 101, 114], content = [104, 105]\<rparr>, \<lparr>role = [97, 115, 115, 105, 115, 116, 97, 110, 116], content = []\<rparr>]\<rparr>) (Response 404 True) [] =
     (initial_page\<lparr>userMessage := [104, 105], error := [65, 80, 73, 32, 101, 114, 114, 111, 114, 58, 32, 52, 48, 52],
        messages := [\<lparr>role = [117, 115, 101, 114], content = [104, 105]\<rparr>, \<lparr>role = [117, 115, 101, 114], content = [104, 105]\<rparr>]\<rparr>, None)"
    by (simp add: handler_defs string_defs decimal.simps lit_def)
  have digits: "decimal 404 = [52, 48, 52] \<and> digits_value [52, 48, 52] = 404"
    by (simp add: digits_value_def decimal.simps)
  note proved = api_error_no_assistant_turn[OF h1 h2, where body = True and rs = "[]"]
  from proved computed digits h1 show ?thesis by (simp add: lit_def initial_page_def)
qed

text \<open>
  The claim as stated fails on a conversation that already has a reply: after the status
  500 the earlier assistant turn is still there, and the user turn of the failed
  submission has been left in the conversation.
\<close>

theorem api_error_counterexample:
  "\<not> falsy (trim (userMessage (initial_page\<lparr>userMessage := [104, 105],
       messages := [\<lparr>role = [117, 115, 101, 114], content = [104, 105]\<rparr>, \<lparr>role = [97, 115, 115, 105, 115, 116, 97, 110, 116], content = [121, 111]\<rparr>]\<rparr>))) \<and>
   \<not> (200 \<le> (500 :: nat) \<and> (500 :: nat) \<le> 299) \<and>
   handleSubmit (initial_page\<lparr>userMessage := [104, 105],
       messages := [\<lparr>role = [117, 115, 101, 114], content = [104, 105]\<rparr>, \<lparr>role = [97, 115, 115, 105, 115, 116, 97, 110, 116], content = [121, 111]\<rparr>]\<rparr>) (Response 500 True) [] =
     (initial_page\<lparr>userMessage := [104, 105], error := [65, 80, 73, 32, 101, 114, 114, 111, 114, 58, 32, 53, 48, 48],
        messages := [\<lparr>role = [117, 115, 101, 114], content = [104, 105]\<rparr>, \<lparr>role = [97, 115, 115, 105, 115, 116, 97, 110, 116], content = [121, 111]\<rparr>, \<lparr>role = [117, 115, 101, 114], content = [104, 105]\<rparr>]\<rparr>, None)"
  by (simp add: handler_defs string_defs decimal.simps lit_def)

text \<open>
  C3. When a read fails after the chunks \<open>vals\<close>, the assistant turn stays with exactly
  the concatenation of the increments received, unless that is still empty, in which case
  the turn is removed; the error's message is shown and loading ends.
\<close>

theorem read_failure_keeps_content:
  assumes "ok status"
  shows "handleSubmit_continue s (Response status True) (map Chunk vals @ ReadRejected err # rs) =
           (s\<lparr>messages := filter (\<lambda>msg. content msg \<noteq> []) (messages s) @
                  (if concat (increments new_TextDecoder vals) = [] then []
                   else [assistant_turn (concat (increments new_TextDecoder vals))]),
              error := (case err of Error m \<Rightarrow> m | NonError \<Rightarrow> lit ''An error occurred''),
              isLoading := False\<rparr>, None)"
  by (simp add: continue_chunks[OF assms] handleSubmit_read_def finally_clause_def
      catch_clause_def assistant_turn_def)

text \<open>The connection breaks after "H" and the first byte of a two-byte character.\<close>

theorem read_failure_keeps_content_witness:
  "ok 200 \<and>
   handleSubmit_continue (initial_page\<lparr>messages := [assistant_turn [], user_turn (lit ''hi'')]\<rparr>)
     (Response 200 True) (map Chunk [[0x48, 0xC3]] @ ReadRejected (Error (lit ''network error'')) # []) =
     (initial_page\<lparr>messages := [user_turn (lit ''hi''), assistant_turn [0x48]],
        error := lit ''network error''\<rparr>, None)"
proof -
  have h1: "ok 200" by (simp add: ok_def)
  show ?thesis
    using read_failure_keeps_content[OF h1, where vals = "[[0x48, 0xC3]]" and rs = "[]"
        and err = "Error (lit ''network error'')"
        and s = "initial_page\<lparr>messages := [assistant_turn [], user_turn (lit ''hi'')]\<rparr>"] h1
    unfolding broken_stream_example
    by (simp add: initial_page_def assistant_turn_def user_turn_def lit_def)
qed

text \<open>
  C4. Let the bytes of a character \<open>c\<close> be split across two consecutive chunks: the
  first chunk ends with \<open>a\<close> and the second starts with \<open>b\<close>, where \<open>a\<close>
  followed by \<open>b\<close> is the UTF-8 encoding of \<open>c\<close>. The chunks may carry any other
  bytes \<open>p\<close> before and \<open>q\<close> after, and the decoder may be in any state a stream
  can leave it in. After both reads the assistant turn holds what it held, then the text
  of \<open>p\<close>, then \<open>c\<close>, then the text of \<open>q\<close>; U+FFFD stands before \<open>c\<close>
  exactly when \<open>p\<close> left a sequence unfinished. The cut changes nothing: one chunk
  with the same bytes gives the same state. The only code point the decoder keeps to
  itself, cut or not, is a U+FEFF that is the very first of the body, the byte order mark.
\<close>

theorem split_character_decodes:
  assumes "scalar_value c" and "utf8_bytes c = a @ b"
    and "decoder l = decoder_after new_TextDecoder prev"
    and "decode (decoder l) p = (t1, d1)"
    and "decode \<lparr>utf8 = utf8_initial, BOM_seen = True\<rparr> q = (t3, d3)"
  shows "read_loop (s\<lparr>messages := ms @ [\<lparr>role = lit ''assistant'',
                                          content = assistantMessage l\<rparr>]\<rparr>) l
           [Chunk (p @ a), Chunk (b @ q)] =
         (s\<lparr>messages := ms @ [\<lparr>role = lit ''assistant'',
              content = assistantMessage l @ t1 @
                (if bytes_needed (utf8 d1) = 0 then [] else [0xFFFD]) @
                (if c = 0xFEFF \<and> \<not> BOM_seen d1 \<and> bytes_needed (utf8 d1) = 0 then []
                 else utf16 c) @ t3\<rparr>]\<rparr>,
          Some \<lparr>decoder = d3,
                assistantMessage = assistantMessage l @ t1 @
                (if bytes_needed (utf8 d1) = 0 then [] else [0xFFFD]) @
                (if c = 0xFEFF \<and> \<not> BOM_seen d1 \<and> bytes_needed (utf8 d1) = 0 then []
                 else utf16 c) @ t3\<rparr>) \<and>
         read_loop s' l [Chunk (p @ a), Chunk (b @ q)] =
         read_loop s' l [Chunk (p @ a @ b @ q)]"
proof -
  let ?X = "(if bytes_needed (utf8 d1) = 0 then [] else [0xFFFD]) @
            (if c = 0xFEFF \<and> \<not> BOM_seen d1 \<and> bytes_needed (utf8 d1) = 0 then []
             else utf16 c)"
  have d1: "d1 = snd (decode new_TextDecoder (concat prev @ p))"
  proof -
    obtain t0 d0 where z: "decode new_TextDecoder (concat prev) = (t0, d0)"
      by (cases "decode new_TextDecoder (concat prev)")
    with assms(3) have "decoder l = d0" by (simp add: decoder_after_concat)
    with assms(4) z show ?thesis by (simp add: decode_append)
  qed
  have ch: "decode d1 (utf8_bytes c) = (?X, \<lparr>utf8 = utf8_initial, BOM_seen = True\<rparr>)"
    using assms(1) d1 by (rule decode_character)
  have whole: "decode (decoder l) (p @ a @ b @ q) = (t1 @ ?X @ t3, d3)"
    using assms(4,5) ch
    by (simp only: decode_append[of _ p] decode_append[of _ "a @ b"] append_assoc[symmetric]
        assms(2)[symmetric] prod.case)
      (simp add: decode_append assms(2)[symmetric])
  have same: "\<And>s'. read_loop s' l [Chunk (p @ a), Chunk (b @ q)] =
                   read_loop s' l [Chunk (p @ a @ b @ q)]"
    by (simp only: read_loop_two_chunks append_assoc)
  have l: "l = \<lparr>decoder = decoder l, assistantMessage = assistantMessage l\<rparr>" by simp
  have "read_loop (s\<lparr>messages := ms @ [assistant_turn (assistantMessage l)]\<rparr>)
          \<lparr>decoder = decoder l, assistantMessage = assistantMessage l\<rparr>
          (map Chunk [p @ a @ b @ q] @ []) =
        read_loop (s\<lparr>messages := ms @ [assistant_turn (assistantMessage l @
                   concat (increments (decoder l) [p @ a @ b @ q]))]\<rparr>)
          \<lparr>decoder = decoder_after (decoder l) [p @ a @ b @ q],
           assistantMessage = assistantMessage l @
             concat (increments (decoder l) [p @ a @ b @ q])\<rparr> []"
    by (rule read_loop_chunks)
  then have "read_loop (s\<lparr>messages := ms @ [assistant_turn (assistantMessage l)]\<rparr>) l
          [Chunk (p @ a @ b @ q)] =
        (s\<lparr>messages := ms @ [assistant_turn (assistantMessage l @ t1 @ ?X @ t3)]\<rparr>,
         Some \<lparr>decoder = d3, assistantMessage = assistantMessage l @ t1 @ ?X @ t3\<rparr>)"
    unfolding l[symmetric] by (simp add: whole)
  then show ?thesis
    unfolding same by (simp add: assistant_turn_def)
qed

text \<open>
  An emoji of four bytes cut in the middle, after an "H", with the first byte of another
  character behind it in the second chunk.
\<close>

theorem split_character_decodes_witness:
  "scalar_value 0x1F600 \<and> utf8_bytes 0x1F600 = [0xF0, 0x9F] @ [0x98, 0x80] \<and>
   read_loop (initial_page\<lparr>messages := [\<lparr>role = [117, 115, 101, 114], content = [104, 105]\<rparr>] @ [\<lparr>role = [97, 115, 115, 105, 115, 116, 97, 110, 116], content = [0x48]\<rparr>]\<rparr>)
     \<lparr>decoder = decoder_after new_TextDecoder [[0x48]], assistantMessage = [0x48]\<rparr>
     [Chunk ([] @ [0xF0, 0x9F]), Chunk ([0x98, 0x80] @ [0xE2])] =
     (initial_page\<lparr>messages := [\<lparr>role = [117, 115, 101, 114], content = [104, 105]\<rparr>, \<lparr>role = [97, 115, 115, 105, 115, 116, 97, 110, 116], content = [0x48, 0xD83D, 0xDE00]\<rparr>]\<rparr>,
      Some \<lparr>decoder = \<lparr>utf8 = \<lparr>code_point = 2, bytes_seen = 0, bytes_needed = 2,
                     lower_boundary = 0x80, upper_boundary = 0xBF\<rparr>, BOM_seen = True\<rparr>,
            assistantMessage = [0x48, 0xD83D, 0xDE00]\<rparr>)"
proof -
  have h1: "scalar_value 0x1F600" by (simp add: scalar_value_def)
  have h2: "utf8_bytes 0x1F600 = [0xF0, 0x9F] @ [0x98, 0x80]"
    by (simp add: utf8_bytes_def utf8_encode_def)
  have h3: "decoder \<lparr>decoder = decoder_after new_TextDecoder [[0x48]], assistantMessage = [0x48]\<rparr>
              = decoder_after new_TextDecoder [[0x48]]" by simp
  have h4: "decode (decoder \<lparr>decoder = decoder_after new_TextDecoder [[0x48]],
                              assistantMessage = [0x48]\<rparr>) [] =
              ([], \<lparr>utf8 = utf8_initial, BOM_seen = True\<rparr>)"
    by (simp add: decoder_defs)
  have h5: "decode \<lparr>utf8 = utf8_initial, BOM_seen = True\<rparr> [0xE2] =
     ([], \<lparr>utf8 = \<lparr>code_point = 2, bytes_seen = 0, bytes_needed = 2,
                     lower_boundary = 0x80, upper_boundary = 0xBF\<rparr>, BOM_seen = True\<rparr>)"
    by (simp add: decoder_defs)
  have computed: "read_loop (initial_page\<lparr>messages := [\<lparr>role = [117, 115, 101, 114], content = [104, 105]\<rparr>] @ [\<lparr>role = [97, 115, 115, 105, 115, 116, 97, 110, 116], content = [0x48]\<rparr>]\<rparr>)
     \<lparr>decoder = decoder_after new_TextDecoder [[0x48]], assistantMessage = [0x48]\<rparr>
     [Chunk ([] @ [0xF0, 0x9F]), Chunk ([0x98, 0x80] @ [0xE2])] =
     (initial_page\<lparr>messages := [\<lparr>role = [117, 115, 101, 114], content = [104, 105]\<rparr>, \<lparr>role = [97, 115, 115, 105, 115, 116, 97, 110, 116], content = [0x48, 0xD83D, 0xDE00]\<rparr>]\<rparr>,
      Some \<lparr>decoder = \<lparr>utf8 = \<lparr>code_point = 2, bytes_seen = 0, bytes_needed = 2,
                     lower_boundary = 0x80, upper_boundary = 0xBF\<rparr>, BOM_seen = True\<rparr>,
            assistantMessage = [0x48, 0xD83D, 0xDE00]\<rparr>)"
    by (simp add: handler_defs decoder_defs lit_def)
  note proved = split_character_decodes[OF h1 h2 h3 h4 h5, where s = initial_page
        and ms = "[\<lparr>role = [117, 115, 101, 114], content = [104, 105]\<rparr>]", THEN conjunct1]
  from proved computed h1 h2 show ?thesis by (simp add: lit_def del: read_loop.simps)
qed

text \<open>
  C5, as amended. \<open>handleClearChat\<close> leaves the turn list empty. When it is called
  while the handler is reading the response body, nothing that arrives from that stream
  afterwards adds a turn: the list stays empty until the user submits again, which the
  page does not offer before that stream has ended. This does not extend to a clear made
  while the request still awaits its response.
\<close>

theorem clear_while_reading:
  assumes "run initial_app evs = Some (s, ts)" and "list_ex is_Streaming ts"
    and "SubmitForm \<notin> set evs'" and "run (handleClearChat s, ts) evs' = Some (s', ts')"
  shows "messages (handleClearChat s) = [] \<and> messages s' = [] \<and>
         (ts' = [] \<or> fire (s', ts') SubmitForm = None) \<and>
         messages (fst (read_loop (handleClearChat s) l rs)) = []"
proof -
  have inv: "app_inv (s, ts)" using app_inv_initial assms(1) by (rule run_inv)
  have shape: "isLoading s \<and> (\<exists>l. ts = [Streaming l])"
  proof (cases ts)
    case Nil
    with assms(2) show ?thesis by simp
  next
    case (Cons t ts')
    with inv have "ts' = []" by (cases ts') auto
    with inv Cons assms(2) show ?thesis by (cases t) auto
  qed
  have c: "messages (handleClearChat s) = []" by (simp add: handleClearChat_def)
  have "ts = [] \<or> (isLoading (handleClearChat s) \<and> (\<exists>l. ts = [Streaming l]))"
    using shape by (simp add: handleClearChat_def)
  with c have after: "messages s' = [] \<and> (ts' = [] \<or> (isLoading s' \<and> (\<exists>l. ts' = [Streaming l])))"
    using assms(3,4) by (rule cleared_run)
  then have "ts' = [] \<or> fire (s', ts') SubmitForm = None" by auto
  with c after show ?thesis by (simp add: read_loop_cleared)
qed

text \<open>A clear after the first chunk; a second chunk and the end of the stream follow.\<close>

theorem clear_while_reading_witness:
  "run initial_app [TypeUserMessage [104, 105], SubmitForm, FetchSettled 0 (Response 200 True),
      ReadSettled 0 (Chunk [0x48])] =
     Some (initial_page\<lparr>userMessage := [104, 105], isLoading := True,
             messages := [\<lparr>role = [117, 115, 101, 114], content = [104, 105]\<rparr>, \<lparr>role = [97, 115, 115, 105, 115, 116, 97, 110, 116], content = [0x48]\<rparr>]\<rparr>,
           [Streaming \<lparr>decoder = \<lparr>utf8 = utf8_initial, BOM_seen = True\<rparr>,
                       assistantMessage = [0x48]\<rparr>]) \<and>
   list_ex is_Streaming [Streaming \<lparr>decoder = \<lparr>utf8 = utf8_initial, BOM_seen = True\<rparr>,
                       assistantMessage = [0x48]\<rparr>] \<and>
   SubmitForm \<notin> set [ReadSettled 0 (Chunk [0x69]), ReadSettled 0 Done] \<and>
   run (handleClearChat (initial_page\<lparr>userMessage := [104, 105], isLoading := True,
             messages := [\<lparr>role = [117, 115, 101, 114], content = [104, 105]\<rparr>, \<lparr>role = [97, 115, 115, 105, 115, 116, 97, 110, 116], content = [0x48]\<rparr>]\<rparr>),
        [Streaming \<lparr>decoder = \<lparr>utf8 = utf8_initial, BOM_seen = True\<rparr>,
                    assistantMessage = [0x48]\<rparr>])
     [ReadSettled 0 (Chunk [0x69])] =
     Some (initial_page\<lparr>userMessage := [104, 105], isLoading := True, messages := []\<rparr>,
           [Streaming \<lparr>decoder = \<lparr>utf8 = utf8_initial, BOM_seen = True\<rparr>,
                       assistantMessage = [0x48, 0x69]\<rparr>]) \<and>
   run (handleClearChat (initial_page\<lparr>userMessage := [104, 105], isLoading := True,
             messages := [\<lparr>role = [117, 115, 101, 114], content = [104, 105]\<rparr>, \<lparr>role = [97, 115, 115, 105, 115, 116, 97, 110, 116], content = [0x48]\<rparr>]\<rparr>),
        [Streaming \<lparr>decoder = \<lparr>utf8 = utf8_initial, BOM_seen = True\<rparr>,
                    assistantMessage = [0x48]\<rparr>])
     [ReadSettled 0 (Chunk [0x69]), ReadSettled 0 Done] =
     Some (initial_page\<lparr>messages := []\<rparr>, [])"
proof -
  have h1: "run initial_app [TypeUserMessage [104, 105], SubmitForm,
      FetchSettled 0 (Response 200 True), ReadSettled 0 (Chunk [0x48])] =
     Some (initial_page\<lparr>userMessage := [104, 105], isLoading := True,
             messages := [\<lparr>role = [117, 115, 101, 114], content = [104, 105]\<rparr>, \<lparr>role = [97, 115, 115, 105, 115, 116, 97, 110, 116], content = [0x48]\<rparr>]\<rparr>,
           [Streaming \<lparr>decoder = \<lparr>utf8 = utf8_initial, BOM_seen = True\<rparr>,
                       assistantMessage = [0x48]\<rparr>])"
    by (simp add: handler_defs decoder_defs string_defs lit_def)
  have h2: "list_ex is_Streaming [Streaming \<lparr>decoder = \<lparr>utf8 = utf8_initial, BOM_seen = True\<rparr>,
                       assistantMessage = [0x48]\<rparr>]" by simp
  have h3: "SubmitForm \<notin> set [ReadSettled 0 (Chunk [0x69]), ReadSettled 0 Done]" by simp
  have mid: "run (handleClearChat (initial_page\<lparr>userMessage := [104, 105], isLoading := True,
             messages := [\<lparr>role = [117, 115, 101, 114], content = [104, 105]\<rparr>, \<lparr>role = [97, 115, 115, 105, 115, 116, 97, 110, 116], content = [0x48]\<rparr>]\<rparr>),
        [Streaming \<lparr>decoder = \<lparr>utf8 = utf8_initial, BOM_seen = True\<rparr>,
                    assistantMessage = [0x48]\<rparr>])
     [ReadSettled 0 (Chunk [0x69])] =
     Some (initial_page\<lparr>userMessage := [104, 105], isLoading := True, messages := []\<rparr>,
           [Streaming \<lparr>decoder = \<lparr>utf8 = utf8_initial, BOM_seen = True\<rparr>,
                       assistantMessage = [0x48, 0x69]\<rparr>])"
    by (simp add: handler_defs decoder_defs lit_def)
  have h4: "run (handleClearChat (initial_page\<lparr>userMessage := [104, 105], isLoading := True,
             messages := [\<lparr>role = [117, 115, 101, 114], content = [104, 105]\<rparr>, \<lparr>role = [97, 115, 115, 105, 115, 116, 97, 110, 116], content = [0x48]\<rparr>]\<rparr>),
        [Streaming \<lparr>decoder = \<lparr>utf8 = utf8_initial, BOM_seen = True\<rparr>,
                    assistantMessage = [0x48]\<rparr>])
     [ReadSettled 0 (Chunk [0x69]), ReadSettled 0 Done] =
     Some (initial_page\<lparr>messages := []\<rparr>, [])"
    by (simp add: handler_defs decoder_defs lit_def)
  note proved = clear_while_reading[OF h1 h2 h3 h4]
  from proved h1 h2 h3 mid h4 show ?thesis by (simp del: run.simps)
qed

text \<open>
  The claim as stated fails when the clear comes while the request is awaited
  (\<open>isLoading\<close> is true and "Clear Chat" is shown): the placeholder is appended to the
  emptied list when the response arrives, and the increments appear in it.
\<close>

theorem clear_while_fetching_counterexample:
  "run initial_app [TypeUserMessage [104, 105], SubmitForm] =
     Some (initial_page\<lparr>userMessage := [104, 105], isLoading := True,
             messages := [\<lparr>role = [117, 115, 101, 114], content = [104, 105]\<rparr>]\<rparr>,
           [Fetching \<lparr>developer_message = lit ''You are a helpful assistant.'',
                      user_message = [104, 105], request_model = lit ''gpt-4.1-mini'',
                      api_key = None\<rparr>]) \<and>
   run initial_app [TypeUserMessage [104, 105], SubmitForm, ClickClearChat] =
     Some (initial_page\<lparr>userMessage := [104, 105], isLoading := True, messages := []\<rparr>,
           [Fetching \<lparr>developer_message = lit ''You are a helpful assistant.'',
                      user_message = [104, 105], request_model = lit ''gpt-4.1-mini'',
                      api_key = None\<rparr>]) \<and>
   run initial_app [TypeUserMessage [104, 105], SubmitForm, ClickClearChat,
       FetchSettled 0 (Response 200 True), ReadSettled 0 (Chunk [0x48, 0x69])] =
     Some (initial_page\<lparr>userMessage := [104, 105], isLoading := True,
             messages := [\<lparr>role = [97, 115, 115, 105, 115, 116, 97, 110, 116], content = [0x48, 0x69]\<rparr>]\<rparr>,
           [Streaming \<lparr>decoder = \<lparr>utf8 = utf8_initial, BOM_seen = True\<rparr>,
                       assistantMessage = [0x48, 0x69]\<rparr>])"
  by (simp add: handler_defs decoder_defs string_defs lit_def)

text \<open>
  C6, as amended. In every state the page reaches from its initial state, at most one
  submission is in flight; \<open>isLoading\<close> is true exactly while one is, from the submit
  to the end of its stream; and when that submission is reading the body and the turn
  list is not empty, the last turn is the assistant turn holding the text received so far.
\<close>

theorem one_submission_in_flight:
  assumes "run initial_app evs = Some (s, ts)"
  shows "length ts \<le> 1 \<and> (isLoading s \<longleftrightarrow> ts \<noteq> []) \<and>
         (\<forall>l. Streaming l \<in> set ts \<longrightarrow>
            messages s = [] \<or> last (messages s) = assistant_turn (assistantMessage l))"
proof -
  have inv: "app_inv (s, ts)"
    using app_inv_initial assms by (rule run_inv)
  show ?thesis
  proof (cases ts)
    case Nil
    with inv show ?thesis by simp
  next
    case (Cons t ts')
    with inv have "ts' = []" by (cases ts') auto
    with inv Cons show ?thesis by (cases t) auto
  qed
qed

text \<open>A message is typed and submitted, the response arrives, then a first chunk.\<close>

theorem one_submission_in_flight_witness:
  "run initial_app [TypeUserMessage (lit ''hi''), SubmitForm, FetchSettled 0 (Response 200 True),
      ReadSettled 0 (Chunk [0x48])] =
     Some (initial_page\<lparr>userMessage := lit ''hi'', isLoading := True,
             messages := [user_turn (lit ''hi''), assistant_turn [0x48]]\<rparr>,
           [Streaming \<lparr>decoder = \<lparr>utf8 = utf8_initial, BOM_seen = True\<rparr>,
                       assistantMessage = [0x48]\<rparr>]) \<and>
   isLoading (initial_page\<lparr>userMessage := lit ''hi'', isLoading := True,
             messages := [user_turn (lit ''hi''), assistant_turn [0x48]]\<rparr>) \<and>
   last (messages (initial_page\<lparr>userMessage := lit ''hi'', isLoading := True,
             messages := [user_turn (lit ''hi''), assistant_turn [0x48]]\<rparr>)) = assistant_turn [0x48]"
  using one_submission_in_flight[OF run_streaming] run_streaming by simp

text \<open>
  The claim as stated fails right after a submit: \<open>isLoading\<close> is true while the
  request is awaited, and no assistant turn exists yet.
\<close>

theorem growing_turn_counterexample:
  "run initial_app [TypeUserMessage (lit ''hi''), SubmitForm] =
     Some (initial_page\<lparr>userMessage := lit ''hi'', isLoading := True,
             messages := [user_turn (lit ''hi'')]\<rparr>,
           [Fetching \<lparr>developer_message = lit ''You are a helpful assistant.'',
                      user_message = lit ''hi'', request_model = lit ''gpt-4.1-mini'',
                      api_key = None\<rparr>]) \<and>
   isLoading (initial_page\<lparr>userMessage := lit ''hi'', isLoading := True,
             messages := [user_turn (lit ''hi'')]\<rparr>) \<and>
   \<not> growing (initial_page\<lparr>userMessage := lit ''hi'', isLoading := True,
             messages := [user_turn (lit ''hi'')]\<rparr>,
           [Fetching \<lparr>developer_message = lit ''You are a helpful assistant.'',
                      user_message = lit ''hi'', request_model = lit ''gpt-4.1-mini'',
                      api_key = None\<rparr>]) \<and>
   filter is_assistant (messages (initial_page\<lparr>userMessage := lit ''hi'', isLoading := True,
             messages := [user_turn (lit ''hi'')]\<rparr>)) = []"
  using run_submitted by (simp add: user_not_assistant)

text \<open>
  C7, as amended. For a submission that passes validation and whose response has a status
  in 200..299 and a body, the empty assistant turn stands right after the user turn when
  the first read is awaited, and after any number of chunks that same turn holds the
  increments so far; in both variants of the page. When the body is missing or the status
  is a failure, no placeholder is appended.
\<close>

theorem placeholder_before_increments:
  assumes "\<not> falsy (trim (userMessage s))"
    and "\<not> falsy (trim (userMessage k))" and "\<not> falsy (trim (apiKey k))"
    and "200 \<le> status \<and> status \<le> 299"
  shows "handleSubmit s (Response status True) [] =
           (s\<lparr>error := [], isLoading := True,
              messages := messages s @ [\<lparr>role = lit ''user'', content = userMessage s\<rparr>,
                                        \<lparr>role = lit ''assistant'', content = []\<rparr>]\<rparr>,
            Some \<lparr>decoder = new_TextDecoder, assistantMessage = []\<rparr>) \<and>
         handleSubmit s (Response status True) (map Chunk vals) =
           (s\<lparr>error := [], isLoading := True,
              messages := messages s @ [\<lparr>role = lit ''user'', content = userMessage s\<rparr>,
                 \<lparr>role = lit ''assistant'',
                  content = concat (increments new_TextDecoder vals)\<rparr>]\<rparr>,
            Some \<lparr>decoder = decoder_after new_TextDecoder vals,
                  assistantMessage = concat (increments new_TextDecoder vals)\<rparr>) \<and>
         handleSubmit_key k (Response status True) [] =
           (k\<lparr>error := [], isLoading := True,
              messages := messages k @ [\<lparr>role = lit ''user'', content = userMessage k\<rparr>,
                                        \<lparr>role = lit ''assistant'', content = []\<rparr>]\<rparr>,
            Some \<lparr>decoder = new_TextDecoder, assistantMessage = []\<rparr>) \<and>
         handleSubmit_key k (Response status True) (map Chunk vals) =
           (k\<lparr>error := [], isLoading := True,
              messages := messages k @ [\<lparr>role = lit ''user'', content = userMessage k\<rparr>,
                 \<lparr>role = lit ''assistant'',
                  content = concat (increments new_TextDecoder vals)\<rparr>]\<rparr>,
            Some \<lparr>decoder = decoder_after new_TextDecoder vals,
                  assistantMessage = concat (increments new_TextDecoder vals)\<rparr>) \<and>
         handleSubmit s (Response status False) rs =
           (s\<lparr>error := lit ''No response body'', isLoading := False,
              messages := filter (\<lambda>msg. content msg \<noteq> []) (messages s) @
                          [\<lparr>role = lit ''user'', content = userMessage s\<rparr>]\<rparr>, None) \<and>
         (failure < 200 \<or> 299 < failure \<longrightarrow>
            handleSubmit s (Response failure body) rs =
              (s\<lparr>error := lit ''API error: '' @ decimal failure, isLoading := False,
                 messages := filter (\<lambda>msg. content msg \<noteq> []) (messages s) @
                             [\<lparr>role = lit ''user'', content = userMessage s\<rparr>]\<rparr>, None))"
proof -
  have ok: "ok status" using assms(4) by (simp add: ok_def)
  have failed: "failure < 200 \<or> 299 < failure \<longrightarrow>
            handleSubmit s (Response failure body) rs =
              (s\<lparr>error := lit ''API error: '' @ decimal failure, isLoading := False,
                 messages := filter (\<lambda>msg. content msg \<noteq> []) (messages s) @
                             [\<lparr>role = lit ''user'', content = userMessage s\<rparr>]\<rparr>, None)"
  proof
    assume "failure < 200 \<or> 299 < failure"
    then have nok: "\<not> ok failure" by (auto simp: ok_def)
    have "userMessage s \<noteq> []" using assms(1) by (rule trim_nonempty)
    then show "handleSubmit s (Response failure body) rs =
              (s\<lparr>error := lit ''API error: '' @ decimal failure, isLoading := False,
                 messages := filter (\<lambda>msg. content msg \<noteq> []) (messages s) @
                             [\<lparr>role = lit ''user'', content = userMessage s\<rparr>]\<rparr>, None)"
      by (simp add: handleSubmit_def begin_accepts[OF assms(1)] handleSubmit_continue_def
          response_not_ok[OF nok] user_turn_def)
  qed
  have ne: "userMessage s \<noteq> []" using assms(1) by (rule trim_nonempty)
  have nobody: "handleSubmit s (Response status False) rs =
           (s\<lparr>error := lit ''No response body'', isLoading := False,
              messages := filter (\<lambda>msg. content msg \<noteq> []) (messages s) @
                          [\<lparr>role = lit ''user'', content = userMessage s\<rparr>]\<rparr>, None)"
    using ok ne
    by (simp add: handleSubmit_def begin_accepts[OF assms(1)] handleSubmit_continue_def
        handleSubmit_response_def catch_clause_def finally_clause_def user_turn_def)
  have streamed: "handleSubmit s (Response status True) [] =
           (s\<lparr>error := [], isLoading := True,
              messages := messages s @ [\<lparr>role = lit ''user'', content = userMessage s\<rparr>,
                                        \<lparr>role = lit ''assistant'', content = []\<rparr>]\<rparr>,
            Some \<lparr>decoder = new_TextDecoder, assistantMessage = []\<rparr>) \<and>
         handleSubmit s (Response status True) (map Chunk vals) =
           (s\<lparr>error := [], isLoading := True,
              messages := messages s @ [\<lparr>role = lit ''user'', content = userMessage s\<rparr>,
                 \<lparr>role = lit ''assistant'',
                  content = concat (increments new_TextDecoder vals)\<rparr>]\<rparr>,
            Some \<lparr>decoder = decoder_after new_TextDecoder vals,
                  assistantMessage = concat (increments new_TextDecoder vals)\<rparr>) \<and>
         handleSubmit_key k (Response status True) [] =
           (k\<lparr>error := [], isLoading := True,
              messages := messages k @ [\<lparr>role = lit ''user'', content = userMessage k\<rparr>,
                                        \<lparr>role = lit ''assistant'', content = []\<rparr>]\<rparr>,
            Some \<lparr>decoder = new_TextDecoder, assistantMessage = []\<rparr>) \<and>
         handleSubmit_key k (Response status True) (map Chunk vals) =
           (k\<lparr>error := [], isLoading := True,
              messages := messages k @ [\<lparr>role = lit ''user'', content = userMessage k\<rparr>,
                 \<lparr>role = lit ''assistant'',
                  content = concat (increments new_TextDecoder vals)\<rparr>]\<rparr>,
            Some \<lparr>decoder = decoder_after new_TextDecoder vals,
                  assistantMessage = concat (increments new_TextDecoder vals)\<rparr>)"
    by (simp add: handleSubmit_def handleSubmit_key_def begin_accepts[OF assms(1)]
      begin_key_accepts[OF assms(2,3)] continue_streaming[OF ok]
      continue_start[OF ok] user_turn_def assistant_turn_def)
  from streamed nobody failed show ?thesis by (intro conjI) simp_all
qed

text \<open>Both variants before the first read, and the first variant after two chunks.\<close>

theorem placeholder_before_increments_witness:
  "\<not> falsy (trim (userMessage (initial_page\<lparr>userMessage := [104, 105]\<rparr>))) \<and>
   \<not> falsy (trim (userMessage (initial_page_key\<lparr>userMessage := [104, 105], apiKey := [115, 107]\<rparr>))) \<and>
   \<not> falsy (trim (apiKey (initial_page_key\<lparr>userMessage := [104, 105], apiKey := [115, 107]\<rparr>))) \<and>
   (200 \<le> (200 :: nat) \<and> (200 :: nat) \<le> 299) \<and>
   handleSubmit (initial_page\<lparr>userMessage := [104, 105]\<rparr>) (Response 200 True) [] =
     (initial_page\<lparr>userMessage := [104, 105], isLoading := True,
        messages := [\<lparr>role = [117, 115, 101, 114], content = [104, 105]\<rparr>, \<lparr>role = [97, 115, 115, 105, 115, 116, 97, 110, 116], content = []\<rparr>]\<rparr>,
      Some \<lparr>decoder = new_TextDecoder, assistantMessage = []\<rparr>) \<and>
   messages (fst (handleSubmit (initial_page\<lparr>userMessage := [104, 105]\<rparr>) (Response 200 True)
     (map Chunk [[0x48, 0xC3], [0xA9]]))) = [\<lparr>role = [117, 115, 101, 114], content = [104, 105]\<rparr>, \<lparr>role = [97, 115, 115, 105, 115, 116, 97, 110, 116], content = [0x48, 0xE9]\<rparr>] \<and>
   messages (fst (handleSubmit_key
     (initial_page_key\<lparr>userMessage := [104, 105], apiKey := [115, 107]\<rparr>) (Response 200 True)
     [])) = [\<lparr>role = [117, 115, 101, 114], content = [104, 105]\<rparr>, \<lparr>role = [97, 115, 115, 105, 115, 116, 97, 110, 116], content = []\<rparr>]"
proof -
  have h1: "\<not> falsy (trim (userMessage (initial_page\<lparr>userMessage := [104, 105]\<rparr>)))"
    by (simp add: string_defs)
  have h2: "\<not> falsy (trim (userMessage
              (initial_page_key\<lparr>userMessage := [104, 105], apiKey := [115, 107]\<rparr>)))"
    by (simp add: string_defs)
  have h3: "\<not> falsy (trim (apiKey
              (initial_page_key\<lparr>userMessage := [104, 105], apiKey := [115, 107]\<rparr>)))"
    by (simp add: string_defs)
  have h4: "200 \<le> (200 :: nat) \<and> (200 :: nat) \<le> 299" by simp
  have c1: "handleSubmit (initial_page\<lparr>userMessage := [104, 105]\<rparr>) (Response 200 True) [] =
     (initial_page\<lparr>userMessage := [104, 105], isLoading := True,
        messages := [\<lparr>role = [117, 115, 101, 114], content = [104, 105]\<rparr>, \<lparr>role = [97, 115, 115, 105, 115, 116, 97, 110, 116], content = []\<rparr>]\<rparr>,
      Some \<lparr>decoder = new_TextDecoder, assistantMessage = []\<rparr>)"
    by (simp add: handler_defs string_defs lit_def)
  have c2: "messages (fst (handleSubmit (initial_page\<lparr>userMessage := [104, 105]\<rparr>)
     (Response 200 True) (map Chunk [[0x48, 0xC3], [0xA9]]))) = [\<lparr>role = [117, 115, 101, 114], content = [104, 105]\<rparr>, \<lparr>role = [97, 115, 115, 105, 115, 116, 97, 110, 116], content = [0x48, 0xE9]\<rparr>]"
    by (simp add: handler_defs string_defs decoder_defs lit_def)
  have c3: "messages (fst (handleSubmit_key
     (initial_page_key\<lparr>userMessage := [104, 105], apiKey := [115, 107]\<rparr>) (Response 200 True)
     [])) = [\<lparr>role = [117, 115, 101, 114], content = [104, 105]\<rparr>, \<lparr>role = [97, 115, 115, 105, 115, 116, 97, 110, 116], content = []\<rparr>]"
    by (simp add: handler_defs string_defs lit_def)
  note proved = placeholder_before_increments[OF h1 h2 h3 h4, where vals = "[[0x48, 0xC3], [0xA9]]"]
  from proved h1 h2 h3 c1 c2 c3 show ?thesis by (simp add: lit_def)
qed

text \<open>
  The claim as stated fails for a submission answered with status 500: the user turn is
  appended, and no assistant turn ever is.
\<close>

theorem placeholder_counterexample:
  "\<not> falsy (trim (userMessage (initial_page\<lparr>userMessage := [104, 105]\<rparr>))) \<and>
   handleSubmit_begin (initial_page\<lparr>userMessage := [104, 105]\<rparr>) =
     (initial_page\<lparr>userMessage := [104, 105], isLoading := True,
        messages := [\<lparr>role = [117, 115, 101, 114], content = [104, 105]\<rparr>]\<rparr>,
      Some \<lparr>developer_message = lit ''You are a helpful assistant.'', user_message = [104, 105],
            request_model = lit ''gpt-4.1-mini'', api_key = None\<rparr>) \<and>
   handleSubmit (initial_page\<lparr>userMessage := [104, 105]\<rparr>) (Response 500 True) [] =
     (initial_page\<lparr>userMessage := [104, 105], error := [65, 80, 73, 32, 101, 114, 114, 111, 114, 58, 32, 53, 48, 48],
        messages := [\<lparr>role = [117, 115, 101, 114], content = [104, 105]\<rparr>]\<rparr>, None)"
  by (simp add: handler_defs string_defs decimal.simps lit_def)




text \<open>
  C9. When \<open>userMessage\<close> is empty after trimming, the submission only sets the
  validation error: no request is made, whatever the network would have answered, and the
  turn list is unchanged. In the variant with an API key the error is that of the first
  check that fails.
\<close>

theorem empty_message_rejected:
  assumes "falsy (trim (userMessage s))" and "falsy (trim (userMessage k))"
  shows "handleSubmit_begin s = (s\<lparr>error := lit ''Please enter a message''\<rparr>, None) \<and>
         handleSubmit s fr rs = (s\<lparr>error := lit ''Please enter a message''\<rparr>, None) \<and>
         messages (fst (handleSubmit s fr rs)) = messages s \<and>
         handleSubmit_key k fr rs =
           (k\<lparr>error := (if falsy (trim (apiKey k)) then lit ''Please provide an API key''
                         else lit ''Please enter a message'')\<rparr>, None)"
  using assms
  by (simp add: handleSubmit_def handleSubmit_key_def handleSubmit_begin_def
      handleSubmit_begin_key_def)

text \<open>A message of two spaces, in a conversation of two turns.\<close>

theorem empty_message_rejected_witness:
  "falsy (trim (userMessage (initial_page\<lparr>userMessage := lit ''  '',
      messages := [user_turn (lit ''hi''), assistant_turn (lit ''yo'')]\<rparr>))) \<and>
   falsy (trim (userMessage (initial_page_key\<lparr>userMessage := lit ''  '', apiKey := lit ''sk-1''\<rparr>))) \<and>
   handleSubmit (initial_page\<lparr>userMessage := lit ''  '',
      messages := [user_turn (lit ''hi''), assistant_turn (lit ''yo'')]\<rparr>) (Response 200 True) [Done] =
     (initial_page\<lparr>userMessage := lit ''  '',
        messages := [user_turn (lit ''hi''), assistant_turn (lit ''yo'')],
        error := lit ''Please enter a message''\<rparr>, None) \<and>
   handleSubmit_key (initial_page_key\<lparr>userMessage := lit ''  '', apiKey := lit ''sk-1''\<rparr>)
     (Response 200 True) [Done] =
     (initial_page_key\<lparr>userMessage := lit ''  '', apiKey := lit ''sk-1'',
        error := lit ''Please enter a message''\<rparr>, None)"
proof -
  have h1: "falsy (trim (userMessage (initial_page\<lparr>userMessage := lit ''  '',
      messages := [user_turn (lit ''hi''), assistant_turn (lit ''yo'')]\<rparr>)))"
    using blank_is_blank by simp
  have h2: "falsy (trim (userMessage
      (initial_page_key\<lparr>userMessage := lit ''  '', apiKey := lit ''sk-1''\<rparr>)))"
    using blank_is_blank by simp
  show ?thesis
    using empty_message_rejected[OF h1 h2, where fr = "Response 200 True" and rs = "[Done]"]
      h1 h2 key_not_blank
    by (simp add: initial_page_def initial_page_key_def)
qed

text \<open>
  C10. On every path into the \<open>catch\<close> clause (a rejected fetch, a failure status, a
  missing body, a rejected read) the turn list becomes the old one without its
  empty-content turns, wherever they stand; the other turns keep their order and content.
  So when a first submission ended with an empty assistant turn (the body ended without a
  byte), a second submission that fails deletes that turn.
\<close>

theorem recovery_removes_all_empty_turns:
  "messages (fst (handleSubmit_response s (FetchRejected err))) =
     filter (\<lambda>msg. content msg \<noteq> []) (messages s) \<and>
   (\<not> ok status \<or> \<not> body \<longrightarrow>
      messages (fst (handleSubmit_response s (Response status body))) =
        filter (\<lambda>msg. content msg \<noteq> []) (messages s)) \<and>
   messages (fst (handleSubmit_read s l (ReadRejected err))) =
     filter (\<lambda>msg. content msg \<noteq> []) (messages s) \<and>
   messages (fst (handleSubmit (initial_page\<lparr>userMessage := lit ''hi''\<rparr>)
                   (Response 200 True) [Done])) =
     [user_turn (lit ''hi''), assistant_turn []] \<and>
   messages (fst (handleSubmit
       ((fst (handleSubmit (initial_page\<lparr>userMessage := lit ''hi''\<rparr>) (Response 200 True) [Done]))
          \<lparr>userMessage := lit ''hi''\<rparr>)
       (Response 500 True) [])) =
     [user_turn (lit ''hi''), user_turn (lit ''hi'')]"
proof -
  have first: "handleSubmit (initial_page\<lparr>userMessage := lit ''hi''\<rparr>) (Response 200 True) [Done] =
      (initial_page\<lparr>messages := [user_turn (lit ''hi''), assistant_turn []]\<rparr>, None)"
    unfolding handleSubmit_def hi_request
    by (simp add: handleSubmit_continue_def handleSubmit_response_def
        ok_def handleSubmit_read_def finally_clause_def initial_page_def)
  have nb: "\<not> falsy (trim (userMessage (initial_page\<lparr>
      messages := [user_turn (lit ''hi''), assistant_turn []], userMessage := lit ''hi''\<rparr>)))"
    using hi_not_blank by simp
  have second: "messages (fst (handleSubmit
       (initial_page\<lparr>messages := [user_turn (lit ''hi''), assistant_turn []],
          userMessage := lit ''hi''\<rparr>) (Response 500 True) [])) =
     [user_turn (lit ''hi''), user_turn (lit ''hi'')]"
    unfolding handleSubmit_def begin_accepts[OF nb]
    by (simp add: handleSubmit_continue_def
        handleSubmit_response_def ok_def catch_clause_def finally_clause_def
        user_turn_def assistant_turn_def lit_def)
  show ?thesis
    unfolding first
    by (simp add: second handleSubmit_response_def handleSubmit_read_def catch_clause_def
      finally_clause_def)
qed

text \<open>Status 500 with an empty assistant turn between two user turns.\<close>

theorem recovery_removes_all_empty_turns_witness:
  "\<not> ok 500 \<and>
   messages (fst (handleSubmit_response
     (initial_page\<lparr>messages := [user_turn (lit ''hi''), assistant_turn [],
        user_turn (lit ''again'')]\<rparr>) (Response 500 True))) =
     [user_turn (lit ''hi''), user_turn (lit ''again'')]"
proof -
  have h: "\<not> ok 500" by (simp add: ok_def)
  show ?thesis
    using recovery_removes_all_empty_turns[where status = 500 and body = True
        and s = "initial_page\<lparr>messages := [user_turn (lit ''hi''), assistant_turn [],
        user_turn (lit ''again'')]\<rparr>"] h
    by (simp add: user_turn_def assistant_turn_def lit_def)
qed

end
